theory Spec2Isabelle
  imports Complex_Main "HOL-Library.Product_Lexorder" "HOL-Library.Log_Nat" "HOL-Library.Sublist" "HOL-Library.Multiset"
begin

section \<open>Python text primitives used by \<^verbatim>\<open>fetch_temis_forecast.py\<close>\<close>

text \<open>
  A Python \<^verbatim>\<open>str\<close> is modelled as a \<^typ>\<open>string\<close>: a list of code points below 256
  (ASCII and Latin-1). The built-ins below signal \<^verbatim>\<open>ValueError\<close>, the only exception they
  raise on a \<^verbatim>\<open>str\<close> argument, by \<^const>\<open>None\<close>.
\<close>

definition is_space :: "char \<Rightarrow> bool" where
  \<comment> \<open>\<^verbatim>\<open>str.isspace\<close> on one code point: TAB..CR, FS..US, SPACE, NEL, NBSP\<close>
  "is_space c = (of_char c \<in> {9, 10, 11, 12, 13, 28, 29, 30, 31, 32, 133, 160 :: nat})"

definition is_digit :: "char \<Rightarrow> bool" where
  "is_digit c = (48 \<le> (of_char c :: nat) \<and> (of_char c :: nat) \<le> 57)"

definition digit_val :: "char \<Rightarrow> nat" where
  "digit_val c = of_char c - 48"

definition py_strip :: "string \<Rightarrow> string" where
  \<comment> \<open>\<^verbatim>\<open>s.strip()\<close>\<close>
  "py_strip s = rev (dropWhile is_space (rev (dropWhile is_space s)))"

fun split_ws :: "string \<Rightarrow> string \<Rightarrow> string list" where
  \<comment> \<open>scan for \<^verbatim>\<open>s.split()\<close>: the first argument is the token being read\<close>
  "split_ws cur [] = (if cur = [] then [] else [cur])"
| "split_ws cur (c # cs) =
     (if is_space c then (if cur = [] then split_ws [] cs else cur # split_ws [] cs)
      else split_ws (cur @ [c]) cs)"

definition py_split :: "string \<Rightarrow> string list" where
  \<comment> \<open>\<^verbatim>\<open>s.split()\<close>: the maximal runs of non-whitespace\<close>
  "py_split s = split_ws [] s"

definition slice :: "nat \<Rightarrow> nat \<Rightarrow> 'a list \<Rightarrow> 'a list" where
  \<comment> \<open>\<^verbatim>\<open>s[a:b]\<close> for \<open>0 \<le> a \<le> b\<close>; never raises, shorter when \<open>s\<close> is short\<close>
  "slice a b s = take (b - a) (drop a s)"

definition startswith :: "string \<Rightarrow> string \<Rightarrow> bool" where
  \<comment> \<open>\<^verbatim>\<open>s.startswith(p)\<close>\<close>
  "startswith s p = (take (length p) s = p)"

definition lower_char :: "char \<Rightarrow> char" where
  \<comment> \<open>\<^verbatim>\<open>str.lower\<close> on one code point below 256: A..Z and the Latin-1 capitals\<close>
  "lower_char c =
     (let n = (of_char c :: nat) in
      if (65 \<le> n \<and> n \<le> 90) \<or> (192 \<le> n \<and> n \<le> 222 \<and> n \<noteq> 215) then char_of (n + 32) else c)"

definition py_lower :: "string \<Rightarrow> string" where
  "py_lower s = map lower_char s"

subsection \<open>\<^verbatim>\<open>int(s)\<close>\<close>

fun digitpart :: "bool \<Rightarrow> string \<Rightarrow> bool" where
  \<comment> \<open>digits with single underscores between them; the flag says the previous
      character was a digit\<close>
  "digitpart prev [] = prev"
| "digitpart prev (c # cs) =
     (if is_digit c then digitpart True cs
      else if c = CHR ''_'' \<and> prev then digitpart False cs
      else False)"

definition digits_val :: "string \<Rightarrow> nat" where
  "digits_val s = foldl (\<lambda>a c. 10 * a + digit_val c) 0 (filter is_digit s)"

definition split_sign :: "string \<Rightarrow> bool \<times> string" where
  \<comment> \<open>an optional leading sign; the flag says the sign is minus\<close>
  "split_sign s =
     (case s of
        [] \<Rightarrow> (False, [])
      | c # cs \<Rightarrow> if c = CHR ''-'' then (True, cs) else if c = CHR ''+'' then (False, cs)
                  else (False, s))"

definition py_int :: "string \<Rightarrow> int option" where
  "py_int s =
     (let (neg, body) = split_sign (py_strip s) in
      if digitpart False body
      then Some (if neg then - int (digits_val body) else int (digits_val body))
      else None)"

subsection \<open>\<^verbatim>\<open>float(s)\<close>\<close>

text \<open>
  A Python float is an IEEE binary64 value: not-a-number, an infinity, negative zero, or a
  finite rational. \<^verbatim>\<open>float(s)\<close> rounds the decimal it reads to the nearest binary64 value,
  ties to even.
\<close>

datatype pyfloat = NaN | NegInf | NegZero | Finite rat | PosInf

fun pf_rank :: "pyfloat \<Rightarrow> int \<times> rat" where
  "pf_rank NegInf = (- 1, 0)"
| "pf_rank NegZero = (0, 0)"
| "pf_rank (Finite q) = (0, q)"
| "pf_rank PosInf = (1, 0)"
| "pf_rank NaN = (2, 0)"

definition pf_lt :: "pyfloat \<Rightarrow> pyfloat \<Rightarrow> bool" where
  \<comment> \<open>\<^verbatim>\<open>a < b\<close>: false as soon as one side is not-a-number\<close>
  "pf_lt a b = (a \<noteq> NaN \<and> b \<noteq> NaN \<and> pf_rank a < pf_rank b)"

definition pf_gt :: "pyfloat \<Rightarrow> pyfloat \<Rightarrow> bool" where
  "pf_gt a b = pf_lt b a"

definition pf_le :: "pyfloat \<Rightarrow> pyfloat \<Rightarrow> bool" where
  "pf_le a b = (a \<noteq> NaN \<and> b \<noteq> NaN \<and> pf_rank a \<le> pf_rank b)"

definition pf_isfinite :: "pyfloat \<Rightarrow> bool" where
  "pf_isfinite a = (a \<noteq> NaN \<and> a \<noteq> PosInf \<and> a \<noteq> NegInf)"

definition round_half_even :: "rat \<Rightarrow> int" where
  "round_half_even x =
     (let f = \<lfloor>x\<rfloor>; d = x - of_int f in
      if d < 1 / 2 then f else if 1 / 2 < d then f + 1 else if even f then f else f + 1)"

definition pow2 :: "int \<Rightarrow> rat" where
  "pow2 e = (if 0 \<le> e then 2 ^ nat e else 1 / 2 ^ nat (- e))"

definition floor_log2 :: "rat \<Rightarrow> int" where
  \<comment> \<open>for \<open>a > 0\<close>: the \<open>e\<close> with \<open>2 ^ e \<le> a < 2 ^ (e + 1)\<close>\<close>
  "floor_log2 a =
     (let (n, d) = quotient_of a; e = bitlen n - bitlen d in
      if pow2 e \<le> a then e else e - 1)"

definition to_binary64 :: "bool \<Rightarrow> rat \<Rightarrow> pyfloat" where
  \<comment> \<open>sign and magnitude \<open>a \<ge> 0\<close> to the nearest binary64 value: \<open>n\<close> units of \<open>2 ^ p\<close>,
      an infinity as soon as the rounded value reaches \<open>2 ^ 1024\<close> (that is, \<open>e \<ge> 1024\<close>, or
      \<open>e = 1023\<close> and the mantissa rounds up to \<open>2 ^ 53\<close>)\<close>
  "to_binary64 neg a =
     (if a = 0 then (if neg then NegZero else Finite 0)
      else
        let e = floor_log2 a;
            p = max e (- 1022) - 52;
            n = round_half_even (a / pow2 p);
            v = of_int n * pow2 p
        in if n = 0 then (if neg then NegZero else Finite 0)
           else if 1024 \<le> e \<or> (e = 1023 \<and> n = 2 ^ 53) then (if neg then NegInf else PosInf)
           else Finite (if neg then - v else v))"

definition split_at :: "(char \<Rightarrow> bool) \<Rightarrow> string \<Rightarrow> string \<times> string option" where
  \<comment> \<open>the text before the first character satisfying \<open>P\<close>, and the text after it when
      there is one\<close>
  "split_at P s =
     (takeWhile (\<lambda>c. \<not> P c) s,
      case dropWhile (\<lambda>c. \<not> P c) s of [] \<Rightarrow> None | _ # rest \<Rightarrow> Some rest)"

definition float_number :: "string \<Rightarrow> rat option" where
  \<comment> \<open>\<^verbatim>\<open>floatnumber ::= number [exponent]\<close>,
      \<^verbatim>\<open>number ::= [digitpart] "." digitpart | digitpart ["."]\<close>,
      \<^verbatim>\<open>exponent ::= ("e" | "E") [sign] digitpart\<close>\<close>
  "float_number s =
     (let (mant, expo) = split_at (\<lambda>c. c = CHR ''e'' \<or> c = CHR ''E'') s;
          (ip, fp) = split_at (\<lambda>c. c = CHR ''.'') mant;
          mant_ok =
            (case fp of
               None \<Rightarrow> digitpart False ip
             | Some f \<Rightarrow> (ip = [] \<or> digitpart False ip) \<and> (f = [] \<or> digitpart False f)
                          \<and> \<not> (ip = [] \<and> f = []));
          frac = (case fp of None \<Rightarrow> [] | Some f \<Rightarrow> f);
          m = digits_val (ip @ frac);
          scale = int (length (filter is_digit frac))
      in if \<not> mant_ok then None
         else case expo of
                None \<Rightarrow> Some (of_nat m * (10 powi (- scale)))
              | Some x \<Rightarrow>
                  let (eneg, ed) = split_sign x in
                  if digitpart False ed
                  then Some (of_nat m *
                        (10 powi ((if eneg then - int (digits_val ed) else int (digits_val ed)) - scale)))
                  else None)"

definition py_float :: "string \<Rightarrow> pyfloat option" where
  "py_float s =
     (let (neg, body) = split_sign (py_strip s); low = py_lower body in
      if low = ''inf'' \<or> low = ''infinity'' then Some (if neg then NegInf else PosInf)
      else if low = ''nan'' then Some NaN
      else map_option (to_binary64 neg) (float_number body))"

subsection \<open>\<^verbatim>\<open>datetime\<close>\<close>

text \<open>
  A naive \<^verbatim>\<open>datetime\<close> whose seconds and microseconds are zero, as every one built by this
  program: (year, month, day, hour, minute). Python compares them field by field, which is
  the lexicographic order of the tuple.
\<close>

type_synonym datetime = "int \<times> int \<times> int \<times> int \<times> int"

definition is_leap :: "int \<Rightarrow> bool" where
  "is_leap y = (y mod 4 = 0 \<and> (y mod 100 \<noteq> 0 \<or> y mod 400 = 0))"

definition days_in_month :: "int \<Rightarrow> int \<Rightarrow> int" where
  "days_in_month y m =
     (if m = 2 then (if is_leap y then 29 else 28)
      else if m = 4 \<or> m = 6 \<or> m = 9 \<or> m = 11 then 30 else 31)"

definition py_datetime :: "int \<Rightarrow> int \<Rightarrow> int \<Rightarrow> int \<Rightarrow> int \<Rightarrow> datetime option" where
  \<comment> \<open>\<^verbatim>\<open>datetime(year, month, day, hour, minute)\<close>\<close>
  "py_datetime y m d h mi =
     (if 1 \<le> y \<and> y \<le> 9999 \<and> 1 \<le> m \<and> m \<le> 12 \<and> 1 \<le> d \<and> d \<le> days_in_month y m
         \<and> 0 \<le> h \<and> h \<le> 23 \<and> 0 \<le> mi \<and> mi \<le> 59
      then Some (y, m, d, h, mi) else None)"

section \<open>Records and the line parser\<close>

record uv_record =
  date_obj :: datetime
  date_str :: string
  time_str :: string
  t_dec :: string
  uvi_str :: string
  inst_code :: string

definition parse_existing_data_line :: "string \<Rightarrow> uv_record option" where
  "parse_existing_data_line line =
     (let parts = py_split (py_strip line) in
      if 4 \<le> length parts then
        let yyyy_mm_dd = parts ! 0;
            hh_mm = parts ! 1;
            t_dec_str = parts ! 2;
            uvi_s = parts ! 3;
            inst_code_str = (if 5 \<le> length parts then parts ! 4 else ''RIVM_HIST'')
        in case (py_int (slice 0 4 yyyy_mm_dd), py_int (slice 4 6 yyyy_mm_dd),
                 py_int (slice 6 8 yyyy_mm_dd), py_int (slice 0 2 hh_mm),
                 py_int (slice 2 4 hh_mm)) of
             (Some year, Some month, Some day, Some hour, Some minute) \<Rightarrow>
               (case py_datetime year month day hour minute of
                  None \<Rightarrow> None
                | Some dobj \<Rightarrow>
                    if py_float uvi_s = None \<or> py_float t_dec_str = None then None
                    else Some \<lparr>date_obj = dobj, date_str = yyyy_mm_dd, time_str = hh_mm,
                               t_dec = t_dec_str, uvi_str = uvi_s, inst_code = inst_code_str\<rparr>)
           | _ \<Rightarrow> None
      else None)"

section \<open>Merging, sorting and saving\<close>

definition FILE_HEADER_LINES :: "string list" where
  "FILE_HEADER_LINES =
     [''# UV Index Data (TEMIS forecast & RIVM historical)'',
      ''# Data processed for De Bilt coordinates'',
      ''# Format: YYYYMMDD hhmm  T.dec   UVI InstCode'',
      ''# T.dec is a placeholder (0.0 for forecast), InstCode indicates source.'',
      ''YYYYMMDD hhmm  T.dec   UVI InstCode'']"

definition skip_line :: "string \<Rightarrow> bool" where
  \<comment> \<open>\<^verbatim>\<open>not line or line.startswith('#') or line.lower().startswith('yyyymmdd')\<close>\<close>
  "skip_line line =
     (line = [] \<or> startswith line ''#'' \<or> startswith (py_lower line) ''yyyymmdd'')"

definition record_key :: "uv_record \<Rightarrow> string" where
  \<comment> \<open>\<^verbatim>\<open>f"{r['date_str']}{r['time_str']}{r['inst_code']}"\<close>\<close>
  "record_key r = date_str r @ time_str r @ inst_code r"

definition identity_triple :: "uv_record \<Rightarrow> string \<times> string \<times> string" where
  "identity_triple r = (date_str r, time_str r, inst_code r)"

text \<open>
  The state of the two insertion loops: \<^verbatim>\<open>all_data_records\<close> and \<^verbatim>\<open>processed_keys\<close>.
\<close>

type_synonym merge_state = "uv_record list \<times> string set"

definition add_unique :: "merge_state \<Rightarrow> uv_record \<Rightarrow> merge_state" where
  "add_unique st r =
     (let (all_data_records, processed_keys) = st; k = record_key r in
      if k \<notin> processed_keys then (all_data_records @ [r], insert k processed_keys) else st)"

definition load_line :: "merge_state \<Rightarrow> string \<Rightarrow> merge_state" where
  \<comment> \<open>one turn of the loop over the existing file\<close>
  "load_line st raw =
     (let line = py_strip raw in
      if skip_line line then st
      else case parse_existing_data_line line of
             None \<Rightarrow> st
           | Some parsed_record \<Rightarrow> add_unique st parsed_record)"

definition collect_records :: "uv_record list \<Rightarrow> string list option \<Rightarrow> uv_record list" where
  \<comment> \<open>steps 1 and 2: \<^verbatim>\<open>all_data_records\<close> before it is sorted; the second argument is
      the lines of the existing file, or \<open>None\<close> when there is no such file\<close>
  "collect_records data_to_add existing =
     (let loaded = (case existing of
                      None \<Rightarrow> ([], {})
                    | Some lines \<Rightarrow> foldl load_line ([], {}) lines)
      in fst (foldl add_unique loaded data_to_add))"

definition merged_records :: "uv_record list \<Rightarrow> string list option \<Rightarrow> uv_record list" where
  \<comment> \<open>step 3: \<^verbatim>\<open>all_data_records.sort(key=lambda r: r['date_obj'])\<close>, a stable sort\<close>
  "merged_records data_to_add existing =
     sort_key date_obj (collect_records data_to_add existing)"

definition format_record :: "uv_record \<Rightarrow> string" where
  "format_record r =
     date_str r @ '' '' @ time_str r @ ''  '' @ t_dec r @ ''   '' @ uvi_str r @ '' '' @ inst_code r"

definition render :: "uv_record list \<Rightarrow> string" where
  \<comment> \<open>step 4: the text written, one \<^verbatim>\<open>write(... + "\n")\<close> per line\<close>
  "render recs =
     concat (map (\<lambda>l. l @ [CHR 0x0A]) (FILE_HEADER_LINES @ map format_record recs))"

fun text_lines_from :: "string \<Rightarrow> string \<Rightarrow> string list" where
  \<comment> \<open>the lines that iterating a text-mode file yields (universal newlines: CR LF, CR
      and LF all end a line and are read as LF); the first argument is the line being read\<close>
  "text_lines_from cur [] = (if cur = [] then [] else [cur])"
| "text_lines_from cur [c] =
     (if c = CHR 0x0A \<or> c = CHR 0x0D then [cur @ [CHR 0x0A]] else [cur @ [c]])"
| "text_lines_from cur (c # d # cs) =
     (if c = CHR 0x0D \<and> d = CHR 0x0A then (cur @ [CHR 0x0A]) # text_lines_from [] cs
      else if c = CHR 0x0A \<or> c = CHR 0x0D then (cur @ [CHR 0x0A]) # text_lines_from [] (d # cs)
      else text_lines_from (cur @ [c]) (d # cs))"

definition text_lines :: "string \<Rightarrow> string list" where
  "text_lines txt = text_lines_from [] txt"

text \<open>
  The file system is a map from paths to the text of the file there; \<^verbatim>\<open>os.path.exists\<close> is
  membership in its domain. The function returns the file system it leaves behind. Writing
  the output file is taken to succeed (the \<^verbatim>\<open>IOError\<close> handler only prints).
\<close>

type_synonym filesystem = "string \<rightharpoonup> string"

definition existing_lines :: "string option \<Rightarrow> filesystem \<Rightarrow> string list option" where
  \<comment> \<open>\<^verbatim>\<open>if existing_data_filepath and os.path.exists(existing_data_filepath)\<close>\<close>
  "existing_lines existing_data_filepath fs =
     (case existing_data_filepath of
        None \<Rightarrow> None
      | Some p \<Rightarrow> if p = [] then None else map_option text_lines (fs p))"

definition format_and_save_data ::
  "uv_record list \<Rightarrow> string option \<Rightarrow> string \<Rightarrow> filesystem \<Rightarrow> filesystem" where
  "format_and_save_data data_to_add existing_data_filepath output_filepath fs =
     (let existing = existing_lines existing_data_filepath fs in
      if collect_records data_to_add existing = [] then fs
      else fs(output_filepath \<mapsto> render (merged_records data_to_add existing)))"

definition parsed_lines :: "string list \<Rightarrow> uv_record list" where
  \<comment> \<open>the records that a loop over lines hands on: each line is stripped, comments, the
      header and blank lines are skipped, and lines the parser rejects are dropped\<close>
  "parsed_lines lines =
     concat (map (\<lambda>raw. let line = py_strip raw in
                         if skip_line line then []
                         else case parse_existing_data_line line of
                                None \<Rightarrow> [] | Some r \<Rightarrow> [r]) lines)"


text \<open>
  The policy in the words of the specification: a record is retained exactly when no
  record before it carried its key. The set holds the keys already taken.
\<close>

fun first_wins :: "string set \<Rightarrow> uv_record list \<Rightarrow> uv_record list" where
  "first_wins seen [] = []"
| "first_wins seen (r # rs) =
     (if record_key r \<in> seen then first_wins seen rs
      else r # first_wins (insert (record_key r) seen) rs)"

section \<open>Daily peaks of the historical feed\<close>

definition RIVM_HISTORICAL_INST_CODE :: string where
  "RIVM_HISTORICAL_INST_CODE = ''RIVM_PEAK''"

text \<open>
  The dictionary \<^verbatim>\<open>all_daily_entries\<close>, in insertion order: day key to the records of that
  day in order of arrival.
\<close>

type_synonym daily_entries = "(string \<times> uv_record list) list"

fun add_entry :: "daily_entries \<Rightarrow> uv_record \<Rightarrow> daily_entries" where
  \<comment> \<open>\<^verbatim>\<open>if day_key not in d: d[day_key] = []\<close> and \<^verbatim>\<open>d[day_key].append(r)\<close>\<close>
  "add_entry [] r = [(date_str r, [r])]"
| "add_entry ((k, v) # es) r =
     (if k = date_str r then (k, v @ [r]) # es else (k, v) # add_entry es r)"

definition group_line :: "daily_entries \<Rightarrow> string \<Rightarrow> daily_entries" where
  \<comment> \<open>one turn of the loop over the lines of the year's file\<close>
  "group_line d raw =
     (let line = py_strip raw in
      if skip_line line then d
      else case parse_existing_data_line line of
             None \<Rightarrow> d
           | Some parsed_record \<Rightarrow> add_entry d parsed_record)"

fun max_scan :: "('a \<Rightarrow> pyfloat) \<Rightarrow> 'a \<Rightarrow> 'a list \<Rightarrow> 'a" where
  \<comment> \<open>the scan of \<^verbatim>\<open>max(iterable, key=...)\<close>: the item held is replaced only by an item
      whose key compares greater\<close>
  "max_scan key best [] = best"
| "max_scan key best (x # xs) =
     max_scan key (if pf_gt (key x) (key best) then x else best) xs"

definition uvi_key :: "uv_record \<Rightarrow> pyfloat" where
  \<comment> \<open>\<^verbatim>\<open>float(r['uvi_str'])\<close> where \<^verbatim>\<open>float\<close> accepts the text\<close>
  "uvi_key r = (case py_float (uvi_str r) of Some v \<Rightarrow> v | None \<Rightarrow> NaN)"

definition py_max_by_uvi :: "uv_record list \<Rightarrow> uv_record option" where
  \<comment> \<open>\<^verbatim>\<open>max(entries, key=lambda r: float(r['uvi_str']))\<close>; \<open>None\<close> is the \<^verbatim>\<open>ValueError\<close> of an
      empty sequence or of a text that \<^verbatim>\<open>float\<close> rejects\<close>
  "py_max_by_uvi entries =
     (case entries of
        [] \<Rightarrow> None
      | e # es \<Rightarrow>
          if list_all (\<lambda>r. py_float (uvi_str r) \<noteq> None) entries
          then Some (max_scan uvi_key e es) else None)"

definition peak_entry :: "uv_record \<Rightarrow> uv_record" where
  "peak_entry peak =
     \<lparr>date_obj = date_obj peak, date_str = date_str peak, time_str = time_str peak,
      t_dec = t_dec peak, uvi_str = uvi_str peak, inst_code = RIVM_HISTORICAL_INST_CODE\<rparr>"

definition reduce_day :: "string \<times> uv_record list \<Rightarrow> uv_record list" where
  \<comment> \<open>one turn of the loop over \<^verbatim>\<open>all_daily_entries.items()\<close>: the records it appends\<close>
  "reduce_day entry =
     (let (day_key, hourly_entries_for_day) = entry in
      if hourly_entries_for_day = [] then []
      else case py_max_by_uvi hourly_entries_for_day of
             None \<Rightarrow> []
           | Some peak_record_for_day \<Rightarrow> [peak_entry peak_record_for_day])"

definition reduce_year :: "string list \<Rightarrow> uv_record list" where
  \<comment> \<open>the processing of the lines of one year's file\<close>
  "reduce_year lines = concat (map reduce_day (foldl group_line [] lines))"

definition fetch_and_process_rivm_historical_year :: "string option \<Rightarrow> uv_record list" where
  \<comment> \<open>the argument is the text downloaded for the year, \<open>None\<close> when the download failed\<close>
  "fetch_and_process_rivm_historical_year downloaded =
     (case downloaded of None \<Rightarrow> [] | Some txt \<Rightarrow> reduce_year (text_lines txt))"

text \<open>
  The reduction in the words of the specification: the day keys in order of first
  appearance, the group of a day, and the first record of a group that no record of the
  group exceeds in numeric UV value.
\<close>

definition day_keys :: "uv_record list \<Rightarrow> string list" where
  "day_keys recs = rev (remdups (rev (map date_str recs)))"

definition day_group :: "string \<Rightarrow> uv_record list \<Rightarrow> uv_record list" where
  "day_group k recs = filter (\<lambda>r. date_str r = k) recs"

definition uvi_le :: "uv_record \<Rightarrow> uv_record \<Rightarrow> bool" where
  \<comment> \<open>both UV texts are numbers and the first is at most the second\<close>
  "uvi_le a b =
     (case (py_float (uvi_str a), py_float (uvi_str b)) of
        (Some x, Some y) \<Rightarrow> pf_le x y
      | _ \<Rightarrow> False)"

definition first_max :: "uv_record list \<Rightarrow> uv_record option" where
  "first_max g = List.find (\<lambda>p. list_all (\<lambda>r. uvi_le r p) g) g"

definition grouped :: "uv_record list \<Rightarrow> daily_entries" where
  \<comment> \<open>the dictionary that grouping a list of records builds\<close>
  "grouped recs = map (\<lambda>k. (k, day_group k recs)) (day_keys recs)"

section \<open>The forecast grid\<close>

text \<open>
  A numpy array or netCDF variable is its shape and its element at each index within the
  shape. Coordinates are numbers of an ordered ring and arithmetic on them is exact: the
  rounding of floating-point subtraction, squaring and addition is not modelled.
\<close>

datatype py_exception = ValueError | IndexError | OSError

record 'a ndarray =
  shape :: "nat list"
  item :: "nat list \<Rightarrow> 'a"

definition ndim :: "'a ndarray \<Rightarrow> nat" where
  "ndim a = length (shape a)"

definition index :: "'a ndarray \<Rightarrow> nat list \<Rightarrow> py_exception + 'a" where
  \<comment> \<open>\<^verbatim>\<open>a[i, j, ...]\<close> with one non-negative index per axis\<close>
  "index a idx =
     (if length idx = ndim a \<and> list_all2 (<) idx (shape a) then Inr (item a idx)
      else Inl IndexError)"

definition meshgrid :: "'a ndarray \<Rightarrow> 'a ndarray \<Rightarrow> 'a ndarray \<times> 'a ndarray" where
  \<comment> \<open>\<^verbatim>\<open>np.meshgrid(x, y)\<close> of two 1-D arrays: both results have shape (len y, len x)\<close>
  "meshgrid x y =
     (\<lparr>shape = [shape y ! 0, shape x ! 0], item = (\<lambda>idx. item x [idx ! 1])\<rparr>,
      \<lparr>shape = [shape y ! 0, shape x ! 0], item = (\<lambda>idx. item y [idx ! 0])\<rparr>)"

definition broadcast_dim :: "nat \<Rightarrow> nat \<Rightarrow> nat option" where
  \<comment> \<open>the common extent of one axis of two operands, \<open>None\<close> when they do not broadcast\<close>
  "broadcast_dim a b =
     (if a = b then Some a else if a = 1 then Some b else if b = 1 then Some a else None)"

definition bidx :: "nat \<Rightarrow> nat \<Rightarrow> nat" where
  \<comment> \<open>the index into an axis of extent \<open>n\<close> of an operand that may be stretched\<close>
  "bidx n i = (if n = 1 then 0 else i)"

definition distance_sq ::
  "'a::linordered_idom ndarray \<Rightarrow> 'a ndarray \<Rightarrow> 'a \<Rightarrow> 'a \<Rightarrow> py_exception + 'a ndarray" where
  \<comment> \<open>\<^verbatim>\<open>(lat_grid - target_lat)**2 + (lon_grid - target_lon)**2\<close> on two 2-D arrays\<close>
  "distance_sq lat_grid lon_grid target_lat target_lon =
     (case (broadcast_dim (shape lat_grid ! 0) (shape lon_grid ! 0),
            broadcast_dim (shape lat_grid ! 1) (shape lon_grid ! 1)) of
        (Some r, Some c) \<Rightarrow>
          Inr \<lparr>shape = [r, c],
               item = (\<lambda>idx.
                 (item lat_grid [bidx (shape lat_grid ! 0) (idx ! 0),
                                 bidx (shape lat_grid ! 1) (idx ! 1)] - target_lat)\<^sup>2
                 + (item lon_grid [bidx (shape lon_grid ! 0) (idx ! 0),
                                   bidx (shape lon_grid ! 1) (idx ! 1)] - target_lon)\<^sup>2)\<rparr>
      | _ \<Rightarrow> Inl ValueError)"

definition ravel :: "'a ndarray \<Rightarrow> 'a list" where
  \<comment> \<open>the elements of a 2-D array in row-major order\<close>
  "ravel a =
     map (\<lambda>k. item a [k div (shape a ! 1), k mod (shape a ! 1)])
         [0 ..< shape a ! 0 * shape a ! 1]"

fun argmin_from :: "nat \<Rightarrow> 'a::linorder \<Rightarrow> nat \<Rightarrow> 'a list \<Rightarrow> nat" where
  \<comment> \<open>the scan of \<^verbatim>\<open>np.argmin\<close>: best index and value so far, next index, rest\<close>
  "argmin_from bi bv i [] = bi"
| "argmin_from bi bv i (x # xs) =
     (if x < bv then argmin_from i x (Suc i) xs else argmin_from bi bv (Suc i) xs)"

definition np_argmin :: "'a::linorder list \<Rightarrow> py_exception + nat" where
  \<comment> \<open>\<^verbatim>\<open>np.argmin\<close> of the flattened array; an empty array raises \<^verbatim>\<open>ValueError\<close>\<close>
  "np_argmin xs = (case xs of [] \<Rightarrow> Inl ValueError | x # rest \<Rightarrow> Inr (argmin_from 0 x 1 rest))"

definition unravel_index :: "nat \<Rightarrow> nat list \<Rightarrow> nat \<times> nat" where
  "unravel_index k shp = (k div (shp ! 1), k mod (shp ! 1))"

definition nearest_cell ::
  "'a::linordered_idom ndarray \<Rightarrow> 'a ndarray \<Rightarrow> 'a \<Rightarrow> 'a \<Rightarrow> py_exception + nat \<times> nat" where
  \<comment> \<open>the part of \<^verbatim>\<open>find_nearest_grid_point\<close> that follows the choice of the two grids\<close>
  "nearest_cell lat_grid lon_grid target_lat target_lon =
     (case distance_sq lat_grid lon_grid target_lat target_lon of
        Inl e \<Rightarrow> Inl e
      | Inr dsq \<Rightarrow>
          (case np_argmin (ravel dsq) of
             Inl e \<Rightarrow> Inl e
           | Inr k \<Rightarrow>
               let (lat_idx, lon_idx) = unravel_index k (shape dsq) in
               \<comment> \<open>the last \<^verbatim>\<open>print\<close> reads both grids at the index found\<close>
               (case (index lat_grid [lat_idx, lon_idx], index lon_grid [lat_idx, lon_idx]) of
                  (Inr _, Inr _) \<Rightarrow> Inr (lat_idx, lon_idx)
                | _ \<Rightarrow> Inl IndexError)))"

definition find_nearest_grid_point ::
  "'a::linordered_idom ndarray \<Rightarrow> 'a ndarray \<Rightarrow> 'a \<Rightarrow> 'a \<Rightarrow> py_exception + nat \<times> nat" where
  "find_nearest_grid_point lats_data lons_data target_lat target_lon =
     (if ndim lats_data = 1 \<and> ndim lons_data = 1 then
        let (lon_grid, lat_grid) = meshgrid lons_data lats_data
        in nearest_cell lat_grid lon_grid target_lat target_lon
      else if ndim lats_data = 2 \<and> ndim lons_data = 2 then
        nearest_cell lats_data lons_data target_lat target_lon
      else Inl ValueError)"

text \<open>
  The grid in the words of the specification: the coordinates of cell \<open>(i, j)\<close> and the
  extent of the grid, for a pair of 1-D arrays (expanded) or of 2-D arrays.
\<close>

definition cell_lat :: "'a ndarray \<Rightarrow> nat \<Rightarrow> nat \<Rightarrow> 'a" where
  "cell_lat lats i j = (if ndim lats = 1 then item lats [i] else item lats [i, j])"

definition cell_lon :: "'a ndarray \<Rightarrow> nat \<Rightarrow> nat \<Rightarrow> 'a" where
  "cell_lon lons i j = (if ndim lons = 1 then item lons [j] else item lons [i, j])"

definition grid_rows :: "'a ndarray \<Rightarrow> 'a ndarray \<Rightarrow> nat" where
  "grid_rows lats lons = shape lats ! 0"

definition grid_cols :: "'a ndarray \<Rightarrow> 'a ndarray \<Rightarrow> nat" where
  "grid_cols lats lons = (if ndim lats = 1 then shape lons ! 0 else shape lats ! 1)"

definition is_grid :: "'a ndarray \<Rightarrow> 'a ndarray \<Rightarrow> bool" where
  \<comment> \<open>both 1-D, or both 2-D of one shape; at least one cell\<close>
  "is_grid lats lons =
     (((ndim lats = 1 \<and> ndim lons = 1) \<or> (ndim lats = 2 \<and> shape lons = shape lats))
      \<and> 0 < grid_rows lats lons \<and> 0 < grid_cols lats lons)"


definition is_argmin :: "'a::linorder list \<Rightarrow> nat \<Rightarrow> bool" where
  \<comment> \<open>the first index of a least element\<close>
  "is_argmin xs k =
     (k < length xs \<and> (\<forall>j<length xs. xs ! k \<le> xs ! j) \<and> (\<forall>j<k. xs ! k < xs ! j))"

subsection \<open>Extraction\<close>

text \<open>
  A UV sample read from the field is masked or a floating-point value.
\<close>

datatype sample = Masked | Value pyfloat

definition skip_sample :: "sample \<Rightarrow> bool" where
  \<comment> \<open>the test before \<^verbatim>\<open>continue\<close>: masked, not-a-number or not finite\<close>
  "skip_sample s = (case s of Masked \<Rightarrow> True | Value v \<Rightarrow> v = NaN \<or> \<not> pf_isfinite v)"

fun dec :: "nat \<Rightarrow> string" where
  \<comment> \<open>the decimal digits of a natural number\<close>
  "dec n = (if n < 10 then [char_of (48 + n)] else dec (n div 10) @ [char_of (48 + n mod 10)])"

definition pad2 :: "nat \<Rightarrow> string" where
  \<comment> \<open>at least two digits, zero-padded\<close>
  "pad2 n = (if n < 10 then CHR ''0'' # dec n else dec n)"

definition fmt2 :: "sample \<Rightarrow> string" where
  \<comment> \<open>\<^verbatim>\<open>f"{float(uvi_val):.2f}"\<close>: the value rounded to hundredths, ties to even\<close>
  "fmt2 s =
     (case s of
        Masked \<Rightarrow> ''nan''
      | Value NaN \<Rightarrow> ''nan''
      | Value PosInf \<Rightarrow> ''inf''
      | Value NegInf \<Rightarrow> ''-inf''
      | Value NegZero \<Rightarrow> ''-0.00''
      | Value (Finite q) \<Rightarrow>
          (let n = nat (round_half_even (\<bar>q\<bar> * 100)) in
           (if q < 0 then ''-'' else '''') @ dec (n div 100) @ ''.'' @ pad2 (n mod 100)))"

definition strftime_Ymd :: "datetime \<Rightarrow> string" where
  \<comment> \<open>\<^verbatim>\<open>strftime("%Y%m%d")\<close>; the year is printed without padding, as the C library on
      Linux does\<close>
  "strftime_Ymd dt =
     (case dt of (y, m, d, h, mi) \<Rightarrow> dec (nat y) @ pad2 (nat m) @ pad2 (nat d))"

definition strftime_HM :: "datetime \<Rightarrow> string" where
  \<comment> \<open>\<^verbatim>\<open>strftime("%H%M")\<close>\<close>
  "strftime_HM dt = (case dt of (y, m, d, h, mi) \<Rightarrow> pad2 (nat h) @ pad2 (nat mi))"

record product_group =
  latitude :: "rat ndarray option"
  longitude :: "rat ndarray option"
  uvi_clear :: "sample ndarray option"
  date :: "int list option"

text \<open>
  What is found at the local file name: nothing or an empty file, a file that the netCDF
  library cannot open, or a dataset, given by its \<^verbatim>\<open>PRODUCT\<close> group when it has one. A
  variable that is absent from the group is \<open>None\<close>.
\<close>

datatype nc_file = NoFile | Unreadable | Dataset "product_group option"

text \<open>
  The function returns \<^verbatim>\<open>None\<close> on every failure; the model keeps the cause. The last
  constructor stands for an exception caught by the final \<^verbatim>\<open>except Exception\<close>.
\<close>

datatype extract_error =
  FileMissingOrEmpty | NoProductGroup | MissingVariable string | UnexpectedUvDims
  | Caught py_exception

definition read_sample ::
  "sample ndarray \<Rightarrow> nat \<Rightarrow> nat \<Rightarrow> nat \<Rightarrow> nat \<Rightarrow> extract_error + sample" where
  \<comment> \<open>the \<^verbatim>\<open>if uv_data.ndim == 3 ... elif ... else\<close> of one turn\<close>
  "read_sample uv_data num_time_steps lat_idx lon_idx i =
     (if ndim uv_data = 3 then
        (case index uv_data [i, lat_idx, lon_idx] of
           Inl e \<Rightarrow> Inl (Caught e) | Inr v \<Rightarrow> Inr v)
      else if ndim uv_data = 4 \<and> shape uv_data ! 0 = num_time_steps then
        (case index uv_data [i, 0, lat_idx, lon_idx] of
           Inl e \<Rightarrow> Inl (Caught e) | Inr v \<Rightarrow> Inr v)
      else Inl UnexpectedUvDims)"

definition extract_step ::
  "sample ndarray \<Rightarrow> nat \<Rightarrow> nat \<Rightarrow> nat \<Rightarrow> nat \<Rightarrow> int \<Rightarrow> extract_error + uv_record list" where
  \<comment> \<open>one turn of the loop over the time steps: the records it appends, or the failure
      that ends the function\<close>
  "extract_step uv_data num_time_steps lat_idx lon_idx i date_int =
     (let year = date_int div 10000;
          month = (date_int mod 10000) div 100;
          day = date_int mod 100
      in case py_datetime year month day 12 0 of
           None \<Rightarrow> Inl (Caught ValueError)
         | Some current_datetime_utc \<Rightarrow>
             (case read_sample uv_data num_time_steps lat_idx lon_idx i of
                Inl e \<Rightarrow> Inl e
              | Inr uvi_val \<Rightarrow>
                  if skip_sample uvi_val then Inr []
                  else Inr [\<lparr>date_obj = current_datetime_utc,
                             date_str = strftime_Ymd current_datetime_utc,
                             time_str = strftime_HM current_datetime_utc,
                             t_dec = ''0.0'',
                             uvi_str = fmt2 uvi_val,
                             inst_code = ''TEMIS_FCST''\<rparr>]))"

fun extract_from ::
  "sample ndarray \<Rightarrow> nat \<Rightarrow> nat \<Rightarrow> nat \<Rightarrow> nat \<Rightarrow> int list \<Rightarrow> extract_error + uv_record list" where
  \<comment> \<open>the loop from time step \<open>i\<close> on, over the dates that remain\<close>
  "extract_from uv_data num_time_steps lat_idx lon_idx i [] = Inr []"
| "extract_from uv_data num_time_steps lat_idx lon_idx i (date_int # rest) =
     (case extract_step uv_data num_time_steps lat_idx lon_idx i date_int of
        Inl e \<Rightarrow> Inl e
      | Inr recs \<Rightarrow>
          (case extract_from uv_data num_time_steps lat_idx lon_idx (Suc i) rest of
             Inl e \<Rightarrow> Inl e
           | Inr later \<Rightarrow> Inr (recs @ later)))"

definition process_netcdf_data :: "nc_file \<Rightarrow> rat \<Rightarrow> rat \<Rightarrow> extract_error + uv_record list" where
  "process_netcdf_data local_file target_lat target_lon =
     (case local_file of
        NoFile \<Rightarrow> Inl FileMissingOrEmpty
      | Unreadable \<Rightarrow> Inl (Caught OSError)
      | Dataset None \<Rightarrow> Inl NoProductGroup
      | Dataset (Some product) \<Rightarrow>
          (case latitude product of None \<Rightarrow> Inl (MissingVariable ''latitude'') | Some lats \<Rightarrow>
          (case longitude product of None \<Rightarrow> Inl (MissingVariable ''longitude'') | Some lons \<Rightarrow>
          (case uvi_clear product of None \<Rightarrow> Inl (MissingVariable ''uvi_clear'') | Some uv_data \<Rightarrow>
          (case date product of None \<Rightarrow> Inl (MissingVariable ''date'') | Some date_values \<Rightarrow>
          (case find_nearest_grid_point lats lons target_lat target_lon of
             Inl e \<Rightarrow> Inl (Caught e)
           | Inr (lat_idx, lon_idx) \<Rightarrow>
               extract_from uv_data (length date_values) lat_idx lon_idx 0 date_values))))))"

text \<open>
  The structural conditions in the words of the specification, and the change of the UV
  samples of a dataset by a function, all else equal.
\<close>

definition uv_rank_ok :: "sample ndarray \<Rightarrow> nat \<Rightarrow> bool" where
  \<comment> \<open>indexed [time, lat, lon], or [time, band, lat, lon] with the time extent of the dates\<close>
  "uv_rank_ok uv_data num_time_steps =
     (ndim uv_data = 3 \<or> (ndim uv_data = 4 \<and> shape uv_data ! 0 = num_time_steps))"

definition coords_ok :: "rat ndarray \<Rightarrow> rat ndarray \<Rightarrow> bool" where
  \<comment> \<open>latitude and longitude are both 1-D or both 2-D\<close>
  "coords_ok lats lons = ((ndim lats = 1 \<and> ndim lons = 1) \<or> (ndim lats = 2 \<and> ndim lons = 2))"

definition structural_problem :: "product_group option \<Rightarrow> bool" where
  "structural_problem g =
     (case g of
        None \<Rightarrow> True
      | Some product \<Rightarrow>
          (case (latitude product, longitude product, uvi_clear product, date product) of
             (Some lats, Some lons, Some uv_data, Some date_values) \<Rightarrow>
               \<not> coords_ok lats lons \<or> \<not> uv_rank_ok uv_data (length date_values)
           | _ \<Rightarrow> True))"

definition date_ok :: "int \<Rightarrow> bool" where
  \<comment> \<open>the packed date decodes to a date that \<^verbatim>\<open>datetime\<close> can construct\<close>
  "date_ok date_int =
     (py_datetime (date_int div 10000) ((date_int mod 10000) div 100) (date_int mod 100) 12 0
        \<noteq> None)"

definition remap :: "('a \<Rightarrow> 'a) \<Rightarrow> 'a ndarray \<Rightarrow> 'a ndarray" where
  \<comment> \<open>the array of the same shape with every element changed by \<open>f\<close>\<close>
  "remap f a = a\<lparr>item := (\<lambda>idx. f (item a idx))\<rparr>"

definition map_samples :: "(sample \<Rightarrow> sample) \<Rightarrow> product_group \<Rightarrow> product_group" where
  "map_samples f product = product\<lparr>uvi_clear := map_option (remap f) (uvi_clear product)\<rparr>"

definition uv_covers :: "sample ndarray \<Rightarrow> nat \<Rightarrow> nat \<Rightarrow> nat \<Rightarrow> bool" where
  \<comment> \<open>the field is indexed [time, lat, lon] or [time, band, lat, lon] and extends over the
      time steps and the cell\<close>
  "uv_covers uv_data num_time_steps lat_idx lon_idx =
     ((ndim uv_data = 3 \<and> num_time_steps \<le> shape uv_data ! 0
         \<and> lat_idx < shape uv_data ! 1 \<and> lon_idx < shape uv_data ! 2)
      \<or> (ndim uv_data = 4 \<and> shape uv_data ! 0 = num_time_steps \<and> 0 < shape uv_data ! 1
         \<and> lat_idx < shape uv_data ! 2 \<and> lon_idx < shape uv_data ! 3))"

definition sample_at :: "sample ndarray \<Rightarrow> nat \<Rightarrow> nat \<Rightarrow> nat \<Rightarrow> sample" where
  \<comment> \<open>the sample of time step \<open>i\<close> at the cell, of the first band when there are bands\<close>
  "sample_at uv_data lat_idx lon_idx i =
     (if ndim uv_data = 3 then item uv_data [i, lat_idx, lon_idx]
      else item uv_data [i, 0, lat_idx, lon_idx])"

definition timestep_records :: "sample \<Rightarrow> int \<Rightarrow> uv_record list" where
  \<comment> \<open>what one time step contributes, in the words of the specification\<close>
  "timestep_records v date_int =
     (if v = Masked \<or> v = Value NaN \<or> v = Value PosInf \<or> v = Value NegInf then []
      else [\<lparr>date_obj = (date_int div 10000, (date_int mod 10000) div 100, date_int mod 100, 12, 0),
             date_str = strftime_Ymd
               (date_int div 10000, (date_int mod 10000) div 100, date_int mod 100, 12, 0),
             time_str = ''1200'', t_dec = ''0.0'', uvi_str = fmt2 v,
             inst_code = ''TEMIS_FCST''\<rparr>])"

section \<open>Supporting lemmas\<close>

subsection \<open>The insertion loops\<close>





lemma first_wins_subset: "set (first_wins seen xs) \<subseteq> set xs"
  by (induction xs arbitrary: seen) (auto split: if_splits)












subsection \<open>The line parser\<close>

lemma parse_Some_iff:
  "parse_existing_data_line line = Some r \<longleftrightarrow>
     (\<exists>y m d h mi dt u t.
        4 \<le> length (py_split (py_strip line))
      \<and> py_int (slice 0 4 (py_split (py_strip line) ! 0)) = Some y
      \<and> py_int (slice 4 6 (py_split (py_strip line) ! 0)) = Some m
      \<and> py_int (slice 6 8 (py_split (py_strip line) ! 0)) = Some d
      \<and> py_int (slice 0 2 (py_split (py_strip line) ! 1)) = Some h
      \<and> py_int (slice 2 4 (py_split (py_strip line) ! 1)) = Some mi
      \<and> py_datetime y m d h mi = Some dt
      \<and> py_float (py_split (py_strip line) ! 3) = Some u
      \<and> py_float (py_split (py_strip line) ! 2) = Some t
      \<and> r = \<lparr>date_obj = dt,
               date_str = py_split (py_strip line) ! 0,
               time_str = py_split (py_strip line) ! 1,
               t_dec = py_split (py_strip line) ! 2,
               uvi_str = py_split (py_strip line) ! 3,
               inst_code = (if 5 \<le> length (py_split (py_strip line))
                            then py_split (py_strip line) ! 4 else ''RIVM_HIST'')\<rparr>)"
  unfolding parse_existing_data_line_def Let_def
  by (auto split: option.splits)

lemma parse_plain_line:
  "parse_existing_data_line ''20230101 1200 0.0 1.0 A'' =
     Some \<lparr>date_obj = (2023, 1, 1, 12, 0), date_str = ''20230101'', time_str = ''1200'',
           t_dec = ''0.0'', uvi_str = ''1.0'', inst_code = ''A''\<rparr>"
  by code_simp

lemma parse_plain_line_b:
  "parse_existing_data_line ''20230101 1200 0.0 1.0 B'' =
     Some \<lparr>date_obj = (2023, 1, 1, 12, 0), date_str = ''20230101'', time_str = ''1200'',
           t_dec = ''0.0'', uvi_str = ''1.0'', inst_code = ''B''\<rparr>"
  by code_simp

lemma parse_shifted_line:
  "parse_existing_data_line ''202301011 200 0.0 1.0 A'' =
     Some \<lparr>date_obj = (2023, 1, 1, 20, 0), date_str = ''202301011'', time_str = ''200'',
           t_dec = ''0.0'', uvi_str = ''1.0'', inst_code = ''A''\<rparr>"
  by code_simp

lemma sort_key_Nil_iff: "sort_key f xs = [] \<longleftrightarrow> xs = []"
  by (metis length_sort length_0_conv)

lemma key_fixed_width:
  assumes "length (date_str a) = length (date_str b)" "length (time_str a) = length (time_str b)"
  shows "record_key a = record_key b \<longleftrightarrow> identity_triple a = identity_triple b"
  using assms by (auto simp: record_key_def identity_triple_def)

subsection \<open>Daily peaks\<close>

lemma add_entry_keyed:
  "distinct ks \<Longrightarrow>
   add_entry (map (\<lambda>k. (k, g k)) ks) r =
     (if date_str r \<in> set ks
      then map (\<lambda>k. (k, if k = date_str r then g k @ [r] else g k)) ks
      else map (\<lambda>k. (k, g k)) ks @ [(date_str r, [r])])"
  by (induction ks) auto

lemma day_keys_snoc:
  "day_keys (ys @ [r]) =
     (if date_str r \<in> date_str ` set ys then day_keys ys else day_keys ys @ [date_str r])"
  by (simp add: day_keys_def)

lemma distinct_day_keys: "distinct (day_keys recs)"
  by (simp add: day_keys_def)

lemma set_day_keys: "set (day_keys recs) = date_str ` set recs"
  by (simp add: day_keys_def)

lemma day_group_absent: "k \<notin> date_str ` set ys \<Longrightarrow> day_group k ys = []"
  by (auto simp: day_group_def filter_empty_conv)

lemma add_entry_grouped: "add_entry (grouped ys) r = grouped (ys @ [r])"
proof (cases "date_str r \<in> date_str ` set ys")
  case True
  then show ?thesis
    by (simp add: grouped_def add_entry_keyed distinct_day_keys set_day_keys day_keys_snoc
        day_group_def)
next
  case False
  then have "date_str r \<notin> set (day_keys ys)" by (simp add: set_day_keys)
  then have "\<forall>k\<in>set (day_keys ys). k \<noteq> date_str r" by auto
  then show ?thesis using False
    by (auto simp: grouped_def add_entry_keyed distinct_day_keys set_day_keys day_keys_snoc
        day_group_def filter_empty_conv)
qed

lemma foldl_add_entry: "foldl add_entry (grouped ys) rs = grouped (ys @ rs)"
  by (induction rs arbitrary: ys) (simp_all add: add_entry_grouped)

lemma foldl_group_line: "foldl group_line d lines = foldl add_entry d (parsed_lines lines)"
  by (induction lines arbitrary: d)
     (auto simp: parsed_lines_def group_line_def Let_def split: option.splits)

lemma grouped_lines: "foldl group_line [] lines = grouped (parsed_lines lines)"
proof -
  have "grouped [] = []" by (simp add: grouped_def day_keys_def)
  then show ?thesis using foldl_add_entry [of "[]" "parsed_lines lines"]
    by (simp add: foldl_group_line)
qed


lemma pf_gt_rank: "a \<noteq> NaN \<Longrightarrow> b \<noteq> NaN \<Longrightarrow> pf_gt a b \<longleftrightarrow> pf_rank b < pf_rank a"
  by (simp add: pf_gt_def pf_lt_def)

lemma pf_le_rank: "a \<noteq> NaN \<Longrightarrow> b \<noteq> NaN \<Longrightarrow> pf_le a b \<longleftrightarrow> pf_rank a \<le> pf_rank b"
  by (simp add: pf_le_def)

lemma max_scan_split:
  assumes "\<forall>r\<in>set (b # xs). key r \<noteq> NaN"
  shows "\<exists>pre post. b # xs = pre @ max_scan key b xs # post
           \<and> (\<forall>r\<in>set pre. pf_rank (key r) < pf_rank (key (max_scan key b xs)))
           \<and> (\<forall>r\<in>set post. pf_rank (key r) \<le> pf_rank (key (max_scan key b xs)))"
  using assms
proof (induction xs arbitrary: b)
  case Nil
  have "[b] = [] @ max_scan key b [] # []" by simp
  then show ?case by force
next
  case (Cons x xs)
  show ?case
  proof (cases "pf_gt (key x) (key b)")
    case True
    let ?m = "max_scan key x xs"
    have bx: "pf_rank (key b) < pf_rank (key x)"
      using True Cons.prems by (simp add: pf_gt_rank)
    have "\<forall>r\<in>set (x # xs). key r \<noteq> NaN" using Cons.prems by simp
    from Cons.IH [OF this] obtain pre post where
      sp: "x # xs = pre @ ?m # post"
      and lo: "\<forall>r\<in>set pre. pf_rank (key r) < pf_rank (key ?m)"
      and hi: "\<forall>r\<in>set post. pf_rank (key r) \<le> pf_rank (key ?m)"
      by blast
    have xm: "pf_rank (key x) \<le> pf_rank (key ?m)"
    proof (cases pre)
      case Nil
      then show ?thesis using sp by (metis append_Nil list.inject order_refl)
    next
      case (Cons p ps)
      then have "x \<in> set pre" using sp by simp
      then show ?thesis using lo by force
    qed
    have m: "max_scan key b (x # xs) = ?m" using True by simp
    have "b # x # xs = (b # pre) @ ?m # post" using sp by simp
    moreover have "\<forall>r\<in>set (b # pre). pf_rank (key r) < pf_rank (key ?m)"
      using lo bx xm by auto
    ultimately show ?thesis unfolding m using hi by blast
  next
    case False
    let ?m = "max_scan key b xs"
    have xb: "pf_rank (key x) \<le> pf_rank (key b)"
      using False Cons.prems by (simp add: pf_gt_rank not_less)
    have "\<forall>r\<in>set (b # xs). key r \<noteq> NaN" using Cons.prems by simp
    from Cons.IH [OF this] obtain pre post where
      sp: "b # xs = pre @ ?m # post"
      and lo: "\<forall>r\<in>set pre. pf_rank (key r) < pf_rank (key ?m)"
      and hi: "\<forall>r\<in>set post. pf_rank (key r) \<le> pf_rank (key ?m)"
      by blast
    have m: "max_scan key b (x # xs) = ?m" using False by simp
    show ?thesis
    proof (cases pre)
      case Nil
      then have "b = ?m" "xs = post" using sp by (metis append_Nil list.inject)+
      then have "b # x # xs = [] @ ?m # (x # post)" by simp
      moreover have "\<forall>r\<in>set (x # post). pf_rank (key r) \<le> pf_rank (key ?m)"
        using hi xb \<open>b = ?m\<close> by auto
      ultimately show ?thesis unfolding m by (metis empty_iff list.set(1))
    next
      case (Cons p ps)
      then have pb: "p = b" and xs: "xs = ps @ ?m # post"
        using sp by (metis append_Cons list.inject)+
      have "pf_rank (key b) < pf_rank (key ?m)" using lo Cons pb by simp
      then have xm: "pf_rank (key x) < pf_rank (key ?m)" using xb by simp
      have "b # x # xs = (b # x # ps) @ ?m # post" using xs by simp
      moreover have "\<forall>r\<in>set (b # x # ps). pf_rank (key r) < pf_rank (key ?m)"
        using lo Cons pb xm by auto
      ultimately show ?thesis unfolding m using hi by blast
    qed
  qed
qed

lemma find_split:
  "P m \<Longrightarrow> \<forall>q\<in>set pre. \<not> P q \<Longrightarrow> List.find P (pre @ m # post) = Some m"
  by (induction pre) auto

lemma uvi_le_rank:
  assumes "py_float (uvi_str a) \<noteq> None" "py_float (uvi_str b) \<noteq> None"
    "uvi_key a \<noteq> NaN" "uvi_key b \<noteq> NaN"
  shows "uvi_le a b \<longleftrightarrow> pf_rank (uvi_key a) \<le> pf_rank (uvi_key b)"
  using assms by (auto simp: uvi_le_def uvi_key_def pf_le_rank)

lemma py_max_first_max:
  assumes ne: "g \<noteq> []"
    and ok: "\<forall>r\<in>set g. py_float (uvi_str r) \<noteq> None \<and> py_float (uvi_str r) \<noteq> Some NaN"
  shows "py_max_by_uvi g = first_max g \<and> py_max_by_uvi g \<noteq> None"
proof -
  obtain e es where g: "g = e # es" using ne by (cases g) auto
  have nn: "\<forall>r\<in>set (e # es). uvi_key r \<noteq> NaN"
    using ok g by (auto simp: uvi_key_def split: option.splits)
  let ?m = "max_scan uvi_key e es"
  from max_scan_split [OF nn] obtain pre post where
    sp: "e # es = pre @ ?m # post"
    and lo: "\<forall>r\<in>set pre. pf_rank (uvi_key r) < pf_rank (uvi_key ?m)"
    and hi: "\<forall>r\<in>set post. pf_rank (uvi_key r) \<le> pf_rank (uvi_key ?m)"
    by blast
  have all: "list_all (\<lambda>r. py_float (uvi_str r) \<noteq> None) g"
    using ok by (simp add: list_all_iff)
  have pm: "py_max_by_uvi g = Some ?m"
    using all g by (simp add: py_max_by_uvi_def)
  have min: "?m \<in> set g" using sp g by (metis in_set_conv_decomp)
  have le: "\<And>a b. a \<in> set g \<Longrightarrow> b \<in> set g \<Longrightarrow>
              uvi_le a b \<longleftrightarrow> pf_rank (uvi_key a) \<le> pf_rank (uvi_key b)"
    using ok nn g by (intro uvi_le_rank) auto
  have Pm: "list_all (\<lambda>r. uvi_le r ?m) g"
  proof -
    have "\<forall>r\<in>set g. pf_rank (uvi_key r) \<le> pf_rank (uvi_key ?m)"
      using lo hi sp g by (auto simp: less_imp_le)
    then show ?thesis using le min by (simp add: list_all_iff)
  qed
  have Ppre: "\<forall>q\<in>set pre. \<not> list_all (\<lambda>r. uvi_le r q) g"
  proof
    fix q assume q: "q \<in> set pre"
    then have qg: "q \<in> set g" using sp g by (metis Un_iff set_append)
    have "\<not> pf_rank (uvi_key ?m) \<le> pf_rank (uvi_key q)" using lo q by (simp add: not_le)
    then have "\<not> uvi_le ?m q" using le min qg by simp
    then show "\<not> list_all (\<lambda>r. uvi_le r q) g" using min by (auto simp: list_all_iff)
  qed
  have "first_max g = Some ?m"
    unfolding first_max_def using find_split [of "\<lambda>p. list_all (\<lambda>r. uvi_le r p) g" ?m pre post]
      Pm Ppre sp g by simp
  then show ?thesis using pm by simp
qed

lemma parsed_lines_float:
  "r \<in> set (parsed_lines lines) \<Longrightarrow> py_float (uvi_str r) \<noteq> None"
proof -
  assume "r \<in> set (parsed_lines lines)"
  then obtain line where "parse_existing_data_line line = Some r"
    by (auto simp: parsed_lines_def Let_def split: if_splits option.splits)
  then show ?thesis by (auto simp: parse_Some_iff)
qed

lemma peak_entry_update: "peak_entry p = p\<lparr>inst_code := ''RIVM_PEAK''\<rparr>"
  by (simp add: peak_entry_def RIVM_HISTORICAL_INST_CODE_def)

lemma reduce_year_map:
  assumes "\<forall>r\<in>set (parsed_lines lines). py_float (uvi_str r) \<noteq> Some NaN"
  shows "reduce_year lines =
           map (\<lambda>k. peak_entry (the (first_max (day_group k (parsed_lines lines)))))
               (day_keys (parsed_lines lines))
         \<and> (\<forall>k\<in>set (day_keys (parsed_lines lines)).
               first_max (day_group k (parsed_lines lines)) \<noteq> None)"
proof -
  let ?recs = "parsed_lines lines"
  have grp: "\<And>k. k \<in> set (day_keys ?recs) \<Longrightarrow>
               py_max_by_uvi (day_group k ?recs) = first_max (day_group k ?recs)
             \<and> py_max_by_uvi (day_group k ?recs) \<noteq> None \<and> day_group k ?recs \<noteq> []"
  proof -
    fix k assume "k \<in> set (day_keys ?recs)"
    then have ne: "day_group k ?recs \<noteq> []"
      by (auto simp: set_day_keys day_group_def filter_empty_conv)
    have ok: "\<forall>r\<in>set (day_group k ?recs).
                py_float (uvi_str r) \<noteq> None \<and> py_float (uvi_str r) \<noteq> Some NaN"
      using assms parsed_lines_float [of _ lines] by (auto simp: day_group_def)
    show "py_max_by_uvi (day_group k ?recs) = first_max (day_group k ?recs)
             \<and> py_max_by_uvi (day_group k ?recs) \<noteq> None \<and> day_group k ?recs \<noteq> []"
      using py_max_first_max [OF ne ok] ne by blast
  qed
  have day: "reduce_day (k, day_group k ?recs)
               = [peak_entry (the (first_max (day_group k ?recs)))]"
    if "k \<in> set (day_keys ?recs)" for k
  proof -
    from grp [OF that] obtain m where
      pm: "py_max_by_uvi (day_group k ?recs) = Some m"
      and fm: "first_max (day_group k ?recs) = Some m"
      and ne: "day_group k ?recs \<noteq> []"
      by (metis not_None_eq)
    show ?thesis using pm fm ne by (simp add: reduce_day_def)
  qed
  have "reduce_year lines = concat (map (\<lambda>k. reduce_day (k, day_group k ?recs)) (day_keys ?recs))"
    by (simp add: reduce_year_def grouped_lines grouped_def comp_def)
  also have "\<dots> = concat (map (\<lambda>k. [peak_entry (the (first_max (day_group k ?recs)))])
                        (day_keys ?recs))"
    using day by (simp cong: map_cong)
  also have "\<dots> = map (\<lambda>k. peak_entry (the (first_max (day_group k ?recs)))) (day_keys ?recs)"
    by (induction "day_keys ?recs") simp_all
  finally have m: "reduce_year lines =
      map (\<lambda>k. peak_entry (the (first_max (day_group k ?recs)))) (day_keys ?recs)" .
  have s: "\<forall>k\<in>set (day_keys ?recs). first_max (day_group k ?recs) \<noteq> None"
  proof
    fix k assume "k \<in> set (day_keys ?recs)"
    from grp [OF this] show "first_max (day_group k ?recs) \<noteq> None" by metis
  qed
  show ?thesis using m s by blast
qed

subsection \<open>The nearest grid cell\<close>

lemma argmin_from_inv:
  "is_argmin ys bi \<Longrightarrow> ys ! bi = bv \<Longrightarrow> i = length ys \<Longrightarrow>
   is_argmin (ys @ xs) (argmin_from bi bv i xs)"
proof (induction xs arbitrary: ys bi bv i)
  case Nil
  then show ?case by simp
next
  case (Cons x xs)
  show ?case
  proof (cases "x < bv")
    case True
    have "is_argmin (ys @ [x]) i"
      using Cons.prems True unfolding is_argmin_def
      by (auto simp: nth_append less_Suc_eq intro: less_le_trans le_less_trans less_imp_le)
    moreover have "(ys @ [x]) ! i = x" using Cons.prems by simp
    ultimately have "is_argmin ((ys @ [x]) @ xs) (argmin_from i x (Suc i) xs)"
      using Cons.IH [of "ys @ [x]" i x "Suc i"] Cons.prems by simp
    then show ?thesis using True by simp
  next
    case False
    have "is_argmin (ys @ [x]) bi"
      using Cons.prems False unfolding is_argmin_def
      by (auto simp: nth_append less_Suc_eq not_less)
    moreover have "(ys @ [x]) ! bi = bv" using Cons.prems by (simp add: is_argmin_def nth_append)
    ultimately have "is_argmin ((ys @ [x]) @ xs) (argmin_from bi bv (Suc i) xs)"
      using Cons.IH [of "ys @ [x]" bi bv "Suc i"] Cons.prems by simp
    then show ?thesis using False by simp
  qed
qed

lemma np_argmin_first:
  "xs \<noteq> [] \<Longrightarrow> \<exists>k. np_argmin xs = Inr k \<and> is_argmin xs k"
proof -
  assume "xs \<noteq> []"
  then obtain x rest where xs: "xs = x # rest" by (cases xs) auto
  have "is_argmin [x] 0" by (simp add: is_argmin_def)
  then have "is_argmin ([x] @ rest) (argmin_from 0 x 1 rest)"
    by (rule argmin_from_inv) simp_all
  then show ?thesis using xs by (simp add: np_argmin_def)
qed

lemma bidx_lt: "i < n \<Longrightarrow> bidx n i = i"
  by (auto simp: bidx_def)

lemma flat_index:
  assumes "j < (c::nat)"
  shows "(i * c + j) div c = i" "(i * c + j) mod c = j"
  using assms by simp_all

lemma flat_bound: "i < r \<Longrightarrow> j < c \<Longrightarrow> i * c + j < r * (c::nat)"
proof -
  assume a: "i < r" "j < c"
  then have "i * c + j < i * c + c" by simp
  also have "\<dots> = Suc i * c" by simp
  also have "\<dots> \<le> r * c" using a by (intro mult_le_mono1) simp
  finally show ?thesis .
qed

lemma nearest_cell_spec:
  fixes lat_grid lon_grid :: "'a::linordered_idom ndarray"
  assumes sh: "shape lat_grid = [r, c]" "shape lon_grid = [r, c]" and pos: "0 < r" "0 < c"
  shows "\<exists>i j. nearest_cell lat_grid lon_grid tlat tlon = Inr (i, j) \<and> i < r \<and> j < c
           \<and> (\<forall>i' j'. i' < r \<and> j' < c \<longrightarrow>
                 (item lat_grid [i, j] - tlat)\<^sup>2 + (item lon_grid [i, j] - tlon)\<^sup>2
                 \<le> (item lat_grid [i', j'] - tlat)\<^sup>2 + (item lon_grid [i', j'] - tlon)\<^sup>2)
           \<and> (\<forall>i' j'. i' < r \<and> j' < c \<and> i' * c + j' < i * c + j \<longrightarrow>
                 (item lat_grid [i, j] - tlat)\<^sup>2 + (item lon_grid [i, j] - tlon)\<^sup>2
                 < (item lat_grid [i', j'] - tlat)\<^sup>2 + (item lon_grid [i', j'] - tlon)\<^sup>2)"
proof -
  define d where "d = (\<lambda>i j. (item lat_grid [i, j] - tlat)\<^sup>2 + (item lon_grid [i, j] - tlon)\<^sup>2)"
  define D where "D = \<lparr>shape = [r, c],
               item = (\<lambda>idx.
                 (item lat_grid [bidx (shape lat_grid ! 0) (idx ! 0),
                                 bidx (shape lat_grid ! 1) (idx ! 1)] - tlat)\<^sup>2
                 + (item lon_grid [bidx (shape lon_grid ! 0) (idx ! 0),
                                   bidx (shape lon_grid ! 1) (idx ! 1)] - tlon)\<^sup>2)\<rparr>"
  have dsq: "distance_sq lat_grid lon_grid tlat tlon = Inr D"
    by (simp add: distance_sq_def broadcast_dim_def sh D_def)
  have rav: "ravel D = map (\<lambda>k. d (k div c) (k mod c)) [0 ..< r * c]"
  proof -
    have "\<And>k. k < r * c \<Longrightarrow> k div c < r \<and> k mod c < c"
      using pos by (simp add: less_mult_imp_div_less)
    then show ?thesis
      by (auto simp: ravel_def D_def d_def sh bidx_lt)
  qed
  have "ravel D \<noteq> []" using pos by (simp add: rav)
  from np_argmin_first [OF this] obtain k where
    am: "np_argmin (ravel D) = Inr k" and ia: "is_argmin (ravel D) k" by blast
  have len: "length (ravel D) = r * c" by (simp add: rav)
  have kb: "k < r * c" using ia len unfolding is_argmin_def by metis
  let ?i = "k div c" and ?j = "k mod c"
  have ib: "?i < r" "?j < c" using kb pos by (simp_all add: less_mult_imp_div_less)
  have shD: "shape D = [r, c]" by (simp add: D_def)
  have res: "nearest_cell lat_grid lon_grid tlat tlon = Inr (?i, ?j)"
    using ib shD by (simp add: nearest_cell_def dsq am unravel_index_def index_def ndim_def sh)
  have val: "\<And>k'. k' < r * c \<Longrightarrow> ravel D ! k' = d (k' div c) (k' mod c)"
    by (simp add: rav)
  have le: "d ?i ?j \<le> d i' j'" if "i' < r" "j' < c" for i' j'
  proof -
    have b: "i' * c + j' < r * c" using that by (rule flat_bound)
    have "ravel D ! k \<le> ravel D ! (i' * c + j')"
      using ia b len unfolding is_argmin_def by metis
    then show ?thesis using val [OF kb] val [OF b] that by (simp add: flat_index)
  qed
  have lt: "d ?i ?j < d i' j'" if "i' < r" "j' < c" "i' * c + j' < ?i * c + ?j" for i' j'
  proof -
    have b: "i' * c + j' < r * c" using that(1,2) by (rule flat_bound)
    have "?i * c + ?j = k" by simp
    then have "i' * c + j' < k" using that(3) by simp
    then have "ravel D ! k < ravel D ! (i' * c + j')"
      using ia unfolding is_argmin_def by metis
    then show ?thesis using val [OF kb] val [OF b] that by (simp add: flat_index)
  qed
  show ?thesis
    using res ib le lt unfolding d_def by blast
qed

lemma len2: "length xs = 2 \<Longrightarrow> xs = [xs ! 0, xs ! 1]"
  by (cases xs; cases "tl xs") auto

lemma find_nearest_as_cell:
  fixes lats lons :: "'a::linordered_idom ndarray"
  assumes "is_grid lats lons"
  shows "\<exists>lat_grid lon_grid.
           find_nearest_grid_point lats lons tlat tlon = nearest_cell lat_grid lon_grid tlat tlon
         \<and> shape lat_grid = [grid_rows lats lons, grid_cols lats lons]
         \<and> shape lon_grid = [grid_rows lats lons, grid_cols lats lons]
         \<and> (\<forall>i j. item lat_grid [i, j] = cell_lat lats i j)
         \<and> (\<forall>i j. item lon_grid [i, j] = cell_lon lons i j)"
proof (cases "ndim lats = 1")
  case True
  then have l: "ndim lons = 1" using assms by (auto simp: is_grid_def)
  show ?thesis
    apply (rule exI [of _ "snd (meshgrid lons lats)"])
    apply (rule exI [of _ "fst (meshgrid lons lats)"])
    using True l
    by (simp add: find_nearest_grid_point_def meshgrid_def grid_rows_def grid_cols_def
        cell_lat_def cell_lon_def)
next
  case False
  then have d: "ndim lats = 2" "shape lons = shape lats" using assms by (auto simp: is_grid_def)
  then have d2: "ndim lons = 2" by (simp add: ndim_def)
  have s: "shape lats = [shape lats ! 0, shape lats ! 1]"
    using d(1) unfolding ndim_def by (rule len2)
  show ?thesis
    apply (rule exI [of _ lats])
    apply (rule exI [of _ lons])
    using d d2 s
    by (simp add: find_nearest_grid_point_def grid_rows_def grid_cols_def
        cell_lat_def cell_lon_def)
qed

lemma flat_inj:
  assumes "j < c" "j' < c" "i * c + j = i' * c + (j'::nat)"
  shows "i = i' \<and> j = j'"
proof -
  have "(i * c + j) div c = (i' * c + j') div c" "(i * c + j) mod c = (i' * c + j') mod c"
    using assms(3) by simp_all
  then show ?thesis using assms(1,2) by simp
qed

subsection \<open>Extraction\<close>

lemma len3: "length xs = 3 \<Longrightarrow> xs = [xs ! 0, xs ! 1, xs ! 2]"
  by (cases xs; cases "tl xs"; cases "tl (tl xs)") auto

lemma len4: "length xs = 4 \<Longrightarrow> xs = [xs ! 0, xs ! 1, xs ! 2, xs ! 3]"
  by (cases xs; cases "tl xs"; cases "tl (tl xs)"; cases "tl (tl (tl xs))") auto

lemma read_sample_covered:
  assumes "uv_covers uv T la lo" "i < T"
  shows "read_sample uv T la lo i = Inr (sample_at uv la lo i)"
proof (cases "ndim uv = 3")
  case True
  then have s: "shape uv = [shape uv ! 0, shape uv ! 1, shape uv ! 2]"
    unfolding ndim_def by (rule len3)
  have b: "i < shape uv ! 0 \<and> la < shape uv ! 1 \<and> lo < shape uv ! 2"
    using assms True by (auto simp: uv_covers_def)
  have "list_all2 (<) [i, la, lo] (shape uv)"
    using b by (subst s) simp
  then show ?thesis using True by (simp add: read_sample_def index_def sample_at_def)
next
  case False
  then have f: "ndim uv = 4" and t: "shape uv ! 0 = T"
    and b: "i < shape uv ! 0 \<and> 0 < shape uv ! 1 \<and> la < shape uv ! 2 \<and> lo < shape uv ! 3"
    using assms by (auto simp: uv_covers_def)
  have s: "shape uv = [shape uv ! 0, shape uv ! 1, shape uv ! 2, shape uv ! 3]"
    using f unfolding ndim_def by (rule len4)
  have "list_all2 (<) [i, 0, la, lo] (shape uv)"
    using b by (subst s) simp
  then show ?thesis using f t by (simp add: read_sample_def index_def sample_at_def)
qed

lemma pad2_noon: "pad2 12 = ''12'' \<and> pad2 0 = ''00''"
  by code_simp

lemma strftime_noon: "strftime_HM (y, m, d, 12, 0) = ''1200''"
  by (simp add: strftime_HM_def pad2_noon)

lemma skip_sample_iff:
  "skip_sample v \<longleftrightarrow> v = Masked \<or> v = Value NaN \<or> v = Value PosInf \<or> v = Value NegInf"
  by (cases v) (auto simp: skip_sample_def pf_isfinite_def)

lemma extract_step_ok:
  assumes "read_sample uv T la lo i = Inr v" "date_ok d"
  shows "extract_step uv T la lo i d = Inr (timestep_records v d)"
proof -
  have "py_datetime (d div 10000) ((d mod 10000) div 100) (d mod 100) 12 0
        = Some (d div 10000, (d mod 10000) div 100, d mod 100, 12, 0)"
    using assms(2) by (simp add: date_ok_def py_datetime_def split: if_splits)
  then show ?thesis
    using assms(1)
    by (simp add: extract_step_def Let_def timestep_records_def skip_sample_iff strftime_noon)
qed

lemma extract_from_ok:
  assumes "\<forall>k<length ds. read_sample uv T la lo (i + k) = Inr (sample_at uv la lo (i + k))"
    and "\<forall>d\<in>set ds. date_ok d"
  shows "extract_from uv T la lo i ds =
           Inr (concat (map (\<lambda>(k, d). timestep_records (sample_at uv la lo k) d) (enumerate i ds)))"
  using assms
proof (induction ds arbitrary: i)
  case Nil
  show ?case by simp
next
  case (Cons d ds)
  have r0: "read_sample uv T la lo i = Inr (sample_at uv la lo i)"
    using Cons.prems(1) by force
  have st: "extract_step uv T la lo i d = Inr (timestep_records (sample_at uv la lo i) d)"
    using r0 Cons.prems(2) by (simp add: extract_step_ok)
  have "\<forall>k<length ds. read_sample uv T la lo (Suc i + k) = Inr (sample_at uv la lo (Suc i + k))"
  proof (intro allI impI)
    fix k assume "k < length ds"
    then have "Suc k < length (d # ds)" by simp
    from Cons.prems(1) [rule_format, OF this] show
      "read_sample uv T la lo (Suc i + k) = Inr (sample_at uv la lo (Suc i + k))" by simp
  qed
  moreover have "\<forall>d\<in>set ds. date_ok d" using Cons.prems(2) by simp
  ultimately have "extract_from uv T la lo (Suc i) ds =
      Inr (concat (map (\<lambda>(k, d). timestep_records (sample_at uv la lo k) d) (enumerate (Suc i) ds)))"
    by (rule Cons.IH)
  then show ?case using st by simp
qed

lemma process_success:
  assumes "latitude p = Some lats" "longitude p = Some lons" "uvi_clear p = Some uv"
    "date p = Some dates"
    "find_nearest_grid_point lats lons tlat tlon = Inr (la, lo)"
    "uv_covers uv (length dates) la lo" "\<forall>d\<in>set dates. date_ok d"
  shows "process_netcdf_data (Dataset (Some p)) tlat tlon =
           Inr (concat (map (\<lambda>(i, d). timestep_records (sample_at uv la lo i) d)
                            (enumerate 0 dates)))"
proof -
  have "\<forall>k<length dates. read_sample uv (length dates) la lo (0 + k)
          = Inr (sample_at uv la lo (0 + k))"
    using assms(6) by (simp add: read_sample_covered)
  from extract_from_ok [OF this assms(7)] show ?thesis
    using assms(1-5) by (simp add: process_netcdf_data_def)
qed

lemma read_sample_map:
  "read_sample (remap f uv) T la lo i = Inl e \<longleftrightarrow> read_sample uv T la lo i = Inl e"
  by (auto simp: read_sample_def index_def ndim_def remap_def split: sum.splits if_splits)

lemma sum_cases_Inl: "(\<forall>e. x \<noteq> Inl e) \<longleftrightarrow> (\<exists>v. x = Inr v)"
  by (cases x) auto

lemma extract_step_map:
  "extract_step (remap f uv) T la lo i d = Inl e
   \<longleftrightarrow> extract_step uv T la lo i d = Inl e"
proof -
  let ?uv' = "remap f uv"
  show ?thesis
  proof (cases "read_sample uv T la lo i")
    case (Inl a)
    then have "read_sample ?uv' T la lo i = Inl a" by (simp add: read_sample_map)
    then show ?thesis using Inl by (simp add: extract_step_def Let_def split: option.splits)
  next
    case (Inr v)
    then have "\<forall>e. read_sample ?uv' T la lo i \<noteq> Inl e" by (simp add: read_sample_map)
    then obtain v' where "read_sample ?uv' T la lo i = Inr v'"
      by (auto simp: sum_cases_Inl)
    then show ?thesis using Inr by (simp add: extract_step_def Let_def split: option.splits)
  qed
qed

lemma extract_from_map:
  "extract_from (remap f uv) T la lo i ds = Inl e
   \<longleftrightarrow> extract_from uv T la lo i ds = Inl e"
proof (induction ds arbitrary: i)
  case Nil
  show ?case by simp
next
  case (Cons d ds)
  let ?uv' = "remap f uv"
  show ?case
  proof (cases "extract_step uv T la lo i d")
    case (Inl a)
    then have "extract_step ?uv' T la lo i d = Inl a" by (simp add: extract_step_map)
    then show ?thesis using Inl by simp
  next
    case (Inr recs)
    then have "\<forall>e. extract_step ?uv' T la lo i d \<noteq> Inl e" by (simp add: extract_step_map)
    then obtain recs' where "extract_step ?uv' T la lo i d = Inr recs'"
      by (auto simp: sum_cases_Inl)
    then show ?thesis using Inr Cons.IH [of "Suc i"] by (auto split: sum.splits)
  qed
qed

lemma process_map_samples:
  "process_netcdf_data (Dataset (map_option (map_samples f) g)) tlat tlon = Inl e
   \<longleftrightarrow> process_netcdf_data (Dataset g) tlat tlon = Inl e"
proof (cases g)
  case None
  then show ?thesis by (simp add: process_netcdf_data_def)
next
  case (Some p)
  show ?thesis
  proof (cases "uvi_clear p")
    case None
    then show ?thesis using Some
      by (simp add: process_netcdf_data_def map_samples_def split: option.splits)
  next
    case (Some uv)
    then show ?thesis using \<open>g = Some p\<close>
      by (simp add: process_netcdf_data_def map_samples_def extract_from_map
          split: option.splits sum.splits prod.splits)
  qed
qed

lemma find_nearest_total:
  fixes lats lons :: "'a::linordered_idom ndarray"
  assumes "is_grid lats lons"
  shows "\<exists>la lo. find_nearest_grid_point lats lons tlat tlon = Inr (la, lo)"
proof -
  from find_nearest_as_cell [OF assms, of tlat tlon] obtain lat_grid lon_grid where
    eq: "find_nearest_grid_point lats lons tlat tlon = nearest_cell lat_grid lon_grid tlat tlon"
    and sh: "shape lat_grid = [grid_rows lats lons, grid_cols lats lons]"
            "shape lon_grid = [grid_rows lats lons, grid_cols lats lons]"
    by blast
  have pos: "0 < grid_rows lats lons" "0 < grid_cols lats lons"
    using assms by (simp_all add: is_grid_def)
  from nearest_cell_spec [OF sh pos, of tlat tlon] show ?thesis
    unfolding eq by blast
qed

lemma dec_digit: "n < 10 \<Longrightarrow> length (dec n) = 1"
  by simp

lemma pad2_length: "n < 100 \<Longrightarrow> length (pad2 n) = 2"
proof -
  assume n: "n < 100"
  show ?thesis
  proof (cases "n < 10")
    case True
    then show ?thesis by (simp add: pad2_def)
  next
    case False
    then have "n div 10 < 10" using n by simp
    then have "length (dec (n div 10)) = 1" by (rule dec_digit)
    then show ?thesis using False by (simp add: pad2_def)
  qed
qed

lemma fmt2_two_decimals:
  "\<exists>w f. fmt2 (Value (Finite q)) = w @ ''.'' @ f \<and> length f = 2"
proof -
  let ?n = "nat (round_half_even (\<bar>q\<bar> * 100))"
  have "length (pad2 (?n mod 100)) = 2" by (rule pad2_length) simp
  moreover have "fmt2 (Value (Finite q)) =
      ((if q < 0 then ''-'' else '''') @ dec (?n div 100)) @ ''.'' @ pad2 (?n mod 100)"
    by (simp add: fmt2_def Let_def)
  ultimately show ?thesis by blast
qed

lemma round_half_even_close: "\<bar>of_int (round_half_even x) - x\<bar> \<le> 1 / 2"
proof -
  have "of_int \<lfloor>x\<rfloor> \<le> x" "x < of_int \<lfloor>x\<rfloor> + 1" by linarith+
  then show ?thesis
    by (auto simp: round_half_even_def Let_def abs_le_iff)
qed

lemma process_failure_cause:
  assumes err: "process_netcdf_data (Dataset g) tlat tlon = Inl e"
    and ns: "\<not> structural_problem g"
  shows "\<exists>p lats lons uv dates.
           g = Some p \<and> latitude p = Some lats \<and> longitude p = Some lons
         \<and> uvi_clear p = Some uv \<and> date p = Some dates
         \<and> (\<not> is_grid lats lons \<or> (\<exists>d\<in>set dates. \<not> date_ok d)
            \<or> (\<exists>la lo. find_nearest_grid_point lats lons tlat tlon = Inr (la, lo)
                       \<and> \<not> uv_covers uv (length dates) la lo))"
proof -
  from ns obtain p lats lons uv dates where
    g: "g = Some p" and v: "latitude p = Some lats" "longitude p = Some lons"
      "uvi_clear p = Some uv" "date p = Some dates"
    by (auto simp: structural_problem_def split: option.splits)
  have "\<not> is_grid lats lons \<or> (\<exists>d\<in>set dates. \<not> date_ok d)
            \<or> (\<exists>la lo. find_nearest_grid_point lats lons tlat tlon = Inr (la, lo)
                       \<and> \<not> uv_covers uv (length dates) la lo)"
  proof (rule ccontr)
    assume n: "\<not> ?thesis"
    then have ig: "is_grid lats lons" and dk: "\<forall>d\<in>set dates. date_ok d" by auto
    from find_nearest_total [OF ig, of tlat tlon] obtain la lo where
      fn: "find_nearest_grid_point lats lons tlat tlon = Inr (la, lo)" by blast
    have cov: "uv_covers uv (length dates) la lo" using n fn by auto
    from process_success [OF v fn cov dk] show False using err g by simp
  qed
  then show ?thesis using g v by blast
qed

section \<open>Properties of the program\<close>

subsection \<open>Deduplication\<close>



subsection \<open>Ordering\<close>

text \<open>
  Claim C2. Whatever the order in which the inputs arrive, the merged sequence is
  non-decreasing in the record's date and time (its \<^verbatim>\<open>date_obj\<close>, compared by year, then
  month, day, hour and minute), and the records that share one date and time stand in
  the order in which they were inserted.
\<close>

theorem merge_sorted_stable:
  "sorted (map date_obj (merged_records data_to_add existing))
   \<and> (\<forall>k. filter (\<lambda>r. date_obj r = k) (merged_records data_to_add existing)
          = filter (\<lambda>r. date_obj r = k) (collect_records data_to_add existing))
   \<and> (\<forall>y m d h mi y' m' d' h' mi'.
         ((y, m, d, h, mi) \<le> ((y', m', d', h', mi') :: datetime)) =
         (y < y' \<or> y = y' \<and> (m < m' \<or> m = m' \<and> (d < d' \<or> d = d'
            \<and> (h < h' \<or> h = h' \<and> mi \<le> mi')))))"
proof -
  have a: "sorted (map date_obj (merged_records data_to_add existing))"
    by (simp add: merged_records_def)
  have b: "\<forall>k. filter (\<lambda>r. date_obj r = k) (merged_records data_to_add existing)
          = filter (\<lambda>r. date_obj r = k) (collect_records data_to_add existing)"
    by (simp add: merged_records_def sort_key_stable)
  have c: "\<forall>y m d h mi y' m' d' h' mi'.
         ((y, m, d, h, mi) \<le> ((y', m', d', h', mi') :: datetime)) =
         (y < y' \<or> y = y' \<and> (m < m' \<or> m = m' \<and> (d < d' \<or> d = d'
            \<and> (h < h' \<or> h = h' \<and> mi \<le> mi'))))"
    by (auto simp: less_eq_prod_def less_prod_def)
  show ?thesis using a b c by (intro conjI)
qed

theorem merge_sorted_stable_witness:
  "sorted (map date_obj (merged_records []
      (Some [''20230102 1200 0.0 5.8 A'', ''20230101 1200 0.0 4.1 B'', ''20230101 1200 0.0 3.3 C''])))
   \<and> map inst_code (merged_records []
      (Some [''20230102 1200 0.0 5.8 A'', ''20230101 1200 0.0 4.1 B'', ''20230101 1200 0.0 3.3 C'']))
     = [''B'', ''C'', ''A'']"
proof -
  have e: "map inst_code (merged_records []
      (Some [''20230102 1200 0.0 5.8 A'', ''20230101 1200 0.0 4.1 B'', ''20230101 1200 0.0 3.3 C'']))
     = [''B'', ''C'', ''A'']"
    by code_simp
  show ?thesis
    using e merge_sorted_stable
      [of "[]" "Some [''20230102 1200 0.0 5.8 A'', ''20230101 1200 0.0 4.1 B'',
                      ''20230101 1200 0.0 3.3 C'']"]
    by blast
qed

subsection \<open>Line validation\<close>

text \<open>
  Claim C5, as the code has it. The parser returns a record exactly when the stripped line
  has at least four whitespace-separated tokens, the slices [0:4], [4:6], [6:8] of the
  first token and [0:2], [2:4] of the second are accepted by \<^verbatim>\<open>int\<close> and form a date and
  time that \<^verbatim>\<open>datetime\<close> can construct, and the third and fourth tokens are accepted by
  \<^verbatim>\<open>float\<close>; the record then holds the tokens as they stand. \<^verbatim>\<open>float\<close> also accepts signed
  numbers and the texts \<^verbatim>\<open>nan\<close>, \<^verbatim>\<open>inf\<close> and \<^verbatim>\<open>infinity\<close>, so neither finiteness nor sign
  is checked. In every other case the result is \<open>None\<close>; the function is total, no
  exception leaves it.
\<close>

theorem parse_line_validation:
  "(parse_existing_data_line line \<noteq> None \<longleftrightarrow>
      4 \<le> length (py_split (py_strip line))
      \<and> (\<exists>y m d h mi.
            py_int (slice 0 4 (py_split (py_strip line) ! 0)) = Some y
          \<and> py_int (slice 4 6 (py_split (py_strip line) ! 0)) = Some m
          \<and> py_int (slice 6 8 (py_split (py_strip line) ! 0)) = Some d
          \<and> py_int (slice 0 2 (py_split (py_strip line) ! 1)) = Some h
          \<and> py_int (slice 2 4 (py_split (py_strip line) ! 1)) = Some mi
          \<and> py_datetime y m d h mi \<noteq> None)
      \<and> py_float (py_split (py_strip line) ! 2) \<noteq> None
      \<and> py_float (py_split (py_strip line) ! 3) \<noteq> None)
   \<and> (\<forall>r. parse_existing_data_line line = Some r \<longrightarrow>
          date_str r = py_split (py_strip line) ! 0
        \<and> time_str r = py_split (py_strip line) ! 1
        \<and> t_dec r = py_split (py_strip line) ! 2
        \<and> uvi_str r = py_split (py_strip line) ! 3
        \<and> inst_code r = (if 5 \<le> length (py_split (py_strip line))
                          then py_split (py_strip line) ! 4 else ''RIVM_HIST'')
        \<and> py_int (slice 0 4 (date_str r)) = Some (fst (date_obj r))
        \<and> py_datetime (fst (date_obj r)) (fst (snd (date_obj r))) (fst (snd (snd (date_obj r))))
             (fst (snd (snd (snd (date_obj r))))) (snd (snd (snd (snd (date_obj r)))))
            = Some (date_obj r))"
proof -
  have a: "parse_existing_data_line line \<noteq> None \<longleftrightarrow>
      4 \<le> length (py_split (py_strip line))
      \<and> (\<exists>y m d h mi.
            py_int (slice 0 4 (py_split (py_strip line) ! 0)) = Some y
          \<and> py_int (slice 4 6 (py_split (py_strip line) ! 0)) = Some m
          \<and> py_int (slice 6 8 (py_split (py_strip line) ! 0)) = Some d
          \<and> py_int (slice 0 2 (py_split (py_strip line) ! 1)) = Some h
          \<and> py_int (slice 2 4 (py_split (py_strip line) ! 1)) = Some mi
          \<and> py_datetime y m d h mi \<noteq> None)
      \<and> py_float (py_split (py_strip line) ! 2) \<noteq> None
      \<and> py_float (py_split (py_strip line) ! 3) \<noteq> None"
    unfolding parse_existing_data_line_def Let_def
    by (auto split: option.splits)
  have b: "\<forall>r. parse_existing_data_line line = Some r \<longrightarrow>
          date_str r = py_split (py_strip line) ! 0
        \<and> time_str r = py_split (py_strip line) ! 1
        \<and> t_dec r = py_split (py_strip line) ! 2
        \<and> uvi_str r = py_split (py_strip line) ! 3
        \<and> inst_code r = (if 5 \<le> length (py_split (py_strip line))
                          then py_split (py_strip line) ! 4 else ''RIVM_HIST'')
        \<and> py_int (slice 0 4 (date_str r)) = Some (fst (date_obj r))
        \<and> py_datetime (fst (date_obj r)) (fst (snd (date_obj r))) (fst (snd (snd (date_obj r))))
             (fst (snd (snd (snd (date_obj r))))) (snd (snd (snd (snd (date_obj r)))))
            = Some (date_obj r)"
    by (auto simp: parse_Some_iff py_datetime_def split: if_splits)
  show ?thesis using a b by blast
qed

theorem parse_line_validation_witness:
  "parse_existing_data_line ''20230101 1200 0.0 1.0 A'' \<noteq> None
   \<and> 4 \<le> length (py_split (py_strip ''20230101 1200 0.0 1.0 A''))
   \<and> py_float (py_split (py_strip ''20230101 1200 0.0 1.0 A'') ! 2) \<noteq> None
   \<and> py_float (py_split (py_strip ''20230101 1200 0.0 1.0 A'') ! 3) \<noteq> None"
proof -
  have p: "parse_existing_data_line ''20230101 1200 0.0 1.0 A'' \<noteq> None"
    by (simp add: parse_plain_line)
  show ?thesis
    using p parse_line_validation [of "''20230101 1200 0.0 1.0 A''"] by blast
qed

text \<open>
  Claim C5 as stated fails: a line whose third token is \<^verbatim>\<open>nan\<close> and whose fourth token
  is \<^verbatim>\<open>-inf\<close> is parsed into a record, although neither is a finite decimal and the UV
  value is not non-negative.
\<close>

theorem parse_accepts_nonfinite:
  "parse_existing_data_line ''20230101 1200 nan -inf'' =
     Some \<lparr>date_obj = (2023, 1, 1, 12, 0), date_str = ''20230101'', time_str = ''1200'',
           t_dec = ''nan'', uvi_str = ''-inf'', inst_code = ''RIVM_HIST''\<rparr>
   \<and> py_float ''nan'' = Some NaN \<and> py_float ''-inf'' = Some NegInf
   \<and> \<not> pf_isfinite NaN \<and> \<not> pf_isfinite NegInf \<and> \<not> pf_le (Finite 0) NegInf"
  by code_simp

subsection \<open>The deduplication key\<close>

text \<open>
  Claim C10. The key is the date text, the time text and the source tag written one after
  another with nothing between them. The parser stores the first two tokens as they
  stand. For two parsed records whose date texts have eight characters and whose time
  texts have four, the keys are equal exactly when the triples are equal. Without the
  fixed widths this fails: the parser accepts a nine-character date with a three-character
  time, and that record has the key of a different triple.
\<close>

theorem key_injective_fixed_width:
  "(parse_existing_data_line l1 = Some r1 \<and> parse_existing_data_line l2 = Some r2
      \<and> length (date_str r1) = 8 \<and> length (date_str r2) = 8
      \<and> length (time_str r1) = 4 \<and> length (time_str r2) = 4
    \<longrightarrow> (record_key r1 = record_key r2 \<longleftrightarrow> identity_triple r1 = identity_triple r2))
   \<and> record_key r1 = date_str r1 @ time_str r1 @ inst_code r1
   \<and> (parse_existing_data_line l1 = Some r1 \<longrightarrow>
        date_str r1 = py_split (py_strip l1) ! 0 \<and> time_str r1 = py_split (py_strip l1) ! 1)
   \<and> (\<exists>a b. parse_existing_data_line ''202301011 200 0.0 1.0 A'' = Some a
           \<and> parse_existing_data_line ''20230101 1200 0.0 1.0 A'' = Some b
           \<and> length (date_str a) = 9 \<and> length (time_str a) = 3
           \<and> record_key a = record_key b \<and> identity_triple a \<noteq> identity_triple b)"
proof -
  have w: "length (date_str r1) = 8 \<and> length (date_str r2) = 8
      \<and> length (time_str r1) = 4 \<and> length (time_str r2) = 4
    \<longrightarrow> (record_key r1 = record_key r2 \<longleftrightarrow> identity_triple r1 = identity_triple r2)"
    using key_fixed_width [of r1 r2] by simp
  have k: "record_key r1 = date_str r1 @ time_str r1 @ inst_code r1"
    by (simp add: record_key_def)
  have v: "parse_existing_data_line l1 = Some r1 \<longrightarrow>
        date_str r1 = py_split (py_strip l1) ! 0 \<and> time_str r1 = py_split (py_strip l1) ! 1"
    by (auto simp: parse_Some_iff)
  have c: "\<exists>a b. parse_existing_data_line ''202301011 200 0.0 1.0 A'' = Some a
           \<and> parse_existing_data_line ''20230101 1200 0.0 1.0 A'' = Some b
           \<and> length (date_str a) = 9 \<and> length (time_str a) = 3
           \<and> record_key a = record_key b \<and> identity_triple a \<noteq> identity_triple b"
    by (simp add: parse_plain_line parse_shifted_line record_key_def identity_triple_def)
  show ?thesis using w k v c by blast
qed

theorem key_injective_fixed_width_witness:
  "parse_existing_data_line ''20230101 1200 0.0 1.0 A'' =
     Some \<lparr>date_obj = (2023, 1, 1, 12, 0), date_str = ''20230101'', time_str = ''1200'',
           t_dec = ''0.0'', uvi_str = ''1.0'', inst_code = ''A''\<rparr>
   \<and> parse_existing_data_line ''20230101 1200 0.0 1.0 B'' =
     Some \<lparr>date_obj = (2023, 1, 1, 12, 0), date_str = ''20230101'', time_str = ''1200'',
           t_dec = ''0.0'', uvi_str = ''1.0'', inst_code = ''B''\<rparr>
   \<and> length ''20230101'' = 8 \<and> length ''1200'' = 4
   \<and> (record_key \<lparr>date_obj = (2023, 1, 1, 12, 0), date_str = ''20230101'', time_str = ''1200'',
           t_dec = ''0.0'', uvi_str = ''1.0'', inst_code = ''A''\<rparr>
        = record_key \<lparr>date_obj = (2023, 1, 1, 12, 0), date_str = ''20230101'', time_str = ''1200'',
           t_dec = ''0.0'', uvi_str = ''1.0'', inst_code = ''B''\<rparr>
      \<longleftrightarrow> identity_triple \<lparr>date_obj = (2023, 1, 1, 12, 0), date_str = ''20230101'',
           time_str = ''1200'', t_dec = ''0.0'', uvi_str = ''1.0'', inst_code = ''A''\<rparr>
        = identity_triple \<lparr>date_obj = (2023, 1, 1, 12, 0), date_str = ''20230101'',
           time_str = ''1200'', t_dec = ''0.0'', uvi_str = ''1.0'', inst_code = ''B''\<rparr>)"
proof -
  let ?a = "\<lparr>date_obj = (2023, 1, 1, 12, 0), date_str = ''20230101'', time_str = ''1200'',
           t_dec = ''0.0'', uvi_str = ''1.0'', inst_code = ''A''\<rparr>"
  let ?b = "\<lparr>date_obj = (2023, 1, 1, 12, 0), date_str = ''20230101'', time_str = ''1200'',
           t_dec = ''0.0'', uvi_str = ''1.0'', inst_code = ''B''\<rparr>"
  have pa: "parse_existing_data_line ''20230101 1200 0.0 1.0 A'' = Some ?a"
    by (rule parse_plain_line)
  have pb: "parse_existing_data_line ''20230101 1200 0.0 1.0 B'' = Some ?b"
    by (rule parse_plain_line_b)
  have len: "length (date_str ?a) = 8 \<and> length (date_str ?b) = 8
           \<and> length (time_str ?a) = 4 \<and> length (time_str ?b) = 4"
    by simp
  have imp: "parse_existing_data_line ''20230101 1200 0.0 1.0 A'' = Some ?a
      \<and> parse_existing_data_line ''20230101 1200 0.0 1.0 B'' = Some ?b
      \<and> length (date_str ?a) = 8 \<and> length (date_str ?b) = 8
      \<and> length (time_str ?a) = 4 \<and> length (time_str ?b) = 4
    \<longrightarrow> (record_key ?a = record_key ?b \<longleftrightarrow> identity_triple ?a = identity_triple ?b)"
    using key_injective_fixed_width
      [of "''20230101 1200 0.0 1.0 A''" ?a "''20230101 1200 0.0 1.0 B''" ?b]
    by (rule conjunct1)
  have "record_key ?a = record_key ?b \<longleftrightarrow> identity_triple ?a = identity_triple ?b"
    using imp pa pb len by blast
  then show ?thesis using pa pb by simp
qed

subsection \<open>Saving\<close>

text \<open>
  Claim C8. When the merged sequence is not empty, the text written to the output file is
  the five header lines followed by one line per record in merged order, each line ended
  by a line feed; a record's line is its date text, one space, its time text, two spaces,
  its \<^verbatim>\<open>t_dec\<close> text, three spaces, its UV text, one space and its source tag, every field
  as stored. No other file changes.
\<close>

theorem save_layout:
  assumes "merged_records data_to_add (existing_lines existing_data_filepath fs) \<noteq> []"
  shows "format_and_save_data data_to_add existing_data_filepath output_filepath fs output_filepath
         = Some (concat (map (\<lambda>l. l @ [CHR 0x0A])
                  (FILE_HEADER_LINES @
                   map (\<lambda>r. date_str r @ '' '' @ time_str r @ ''  '' @ t_dec r @ ''   '' @ uvi_str r
                             @ '' '' @ inst_code r)
                       (merged_records data_to_add (existing_lines existing_data_filepath fs)))))
       \<and> length FILE_HEADER_LINES = 5
       \<and> (\<forall>p. p \<noteq> output_filepath \<longrightarrow>
             format_and_save_data data_to_add existing_data_filepath output_filepath fs p = fs p)"
proof -
  have ne: "collect_records data_to_add (existing_lines existing_data_filepath fs) \<noteq> []"
    using assms by (simp add: merged_records_def sort_key_Nil_iff)
  have fr: "format_record = (\<lambda>r. date_str r @ '' '' @ time_str r @ ''  '' @ t_dec r @ ''   '' @ uvi_str r
                             @ '' '' @ inst_code r)"
    by (rule ext) (simp add: format_record_def)
  have h: "length FILE_HEADER_LINES = 5" by (simp add: FILE_HEADER_LINES_def)
  show ?thesis
    using ne h by (simp add: format_and_save_data_def render_def fr)
qed

theorem save_layout_witness:
  "merged_records
     [\<lparr>date_obj = (2023, 1, 1, 12, 0), date_str = ''20230101'', time_str = ''1200'',
       t_dec = ''0.0'', uvi_str = ''1.00'', inst_code = ''TEMIS_FCST''\<rparr>]
     (existing_lines None Map.empty) \<noteq> []
   \<and> format_and_save_data
       [\<lparr>date_obj = (2023, 1, 1, 12, 0), date_str = ''20230101'', time_str = ''1200'',
         t_dec = ''0.0'', uvi_str = ''1.00'', inst_code = ''TEMIS_FCST''\<rparr>]
       None ''merged_uv_data.txt'' Map.empty ''merged_uv_data.txt''
     = Some (concat (map (\<lambda>l. l @ [CHR 0x0A])
         [''# UV Index Data (TEMIS forecast & RIVM historical)'',
          ''# Data processed for De Bilt coordinates'',
          ''# Format: YYYYMMDD hhmm  T.dec   UVI InstCode'',
          ''# T.dec is a placeholder (0.0 for forecast), InstCode indicates source.'',
          ''YYYYMMDD hhmm  T.dec   UVI InstCode'',
          ''20230101 1200  0.0   1.00 TEMIS_FCST'']))"
proof -
  have m: "merged_records
     [\<lparr>date_obj = (2023, 1, 1, 12, 0), date_str = ''20230101'', time_str = ''1200'',
       t_dec = ''0.0'', uvi_str = ''1.00'', inst_code = ''TEMIS_FCST''\<rparr>]
     (existing_lines None Map.empty)
     = [\<lparr>date_obj = (2023, 1, 1, 12, 0), date_str = ''20230101'', time_str = ''1200'',
       t_dec = ''0.0'', uvi_str = ''1.00'', inst_code = ''TEMIS_FCST''\<rparr>]"
    by (simp add: merged_records_def collect_records_def existing_lines_def add_unique_def)
  show ?thesis
    using save_layout
      [of "[\<lparr>date_obj = (2023, 1, 1, 12, 0), date_str = ''20230101'', time_str = ''1200'',
             t_dec = ''0.0'', uvi_str = ''1.00'', inst_code = ''TEMIS_FCST''\<rparr>]"
          None Map.empty "''merged_uv_data.txt''"]
    by (simp add: m FILE_HEADER_LINES_def)
qed

text \<open>
  Claim C9. When the collection is empty after both insertion loops, the function returns
  with the file system unchanged: no output file is written. This is so in particular
  when there are no new records and no existing data, whether because no path is configured
  or because no file exists at the path.
\<close>

theorem empty_merge_no_output:
  "(merged_records data_to_add (existing_lines existing_data_filepath fs) = [] \<longrightarrow>
      format_and_save_data data_to_add existing_data_filepath output_filepath fs = fs)
   \<and> format_and_save_data [] None output_filepath fs = fs
   \<and> (fs p = None \<longrightarrow> format_and_save_data [] (Some p) output_filepath fs = fs)"
proof -
  have a: "merged_records data_to_add (existing_lines existing_data_filepath fs) = [] \<longrightarrow>
      format_and_save_data data_to_add existing_data_filepath output_filepath fs = fs"
    by (simp add: format_and_save_data_def merged_records_def sort_key_Nil_iff)
  have b: "format_and_save_data [] None output_filepath fs = fs"
    by (simp add: format_and_save_data_def existing_lines_def collect_records_def)
  have c: "fs p = None \<longrightarrow> format_and_save_data [] (Some p) output_filepath fs = fs"
    by (simp add: format_and_save_data_def existing_lines_def collect_records_def)
  show ?thesis using a b c by blast
qed

theorem empty_merge_no_output_witness:
  "merged_records [] (existing_lines (Some ''temis_uv_forecast.txt'') Map.empty) = []
   \<and> format_and_save_data [] (Some ''temis_uv_forecast.txt'') ''merged_uv_data.txt'' Map.empty
       = Map.empty"
proof -
  have m: "merged_records [] (existing_lines (Some ''temis_uv_forecast.txt'') Map.empty) = []"
    by (simp add: merged_records_def collect_records_def existing_lines_def)
  show ?thesis
    using m empty_merge_no_output
      [of "[]" "Some ''temis_uv_forecast.txt''" Map.empty "''merged_uv_data.txt''"]
    by blast
qed

subsection \<open>Daily peaks of the historical feed\<close>

text \<open>
  Claim C3, as the code has it. When none of the parsed UV texts of the year is a
  not-a-number, the reduction emits exactly one record per distinct date text among the
  successfully parsed lines, in order of first appearance; that record is the first
  record of the day's group that no record of the group exceeds in numeric UV value, with
  its source tag set to \<^verbatim>\<open>RIVM_PEAK\<close> and its date, time, \<^verbatim>\<open>t_dec\<close> and UV text unchanged.
\<close>

theorem reduce_year_peaks:
  assumes "\<forall>r\<in>set (parsed_lines lines). py_float (uvi_str r) \<noteq> Some NaN"
  shows "list_all2
           (\<lambda>k out. \<exists>p. first_max (day_group k (parsed_lines lines)) = Some p
                        \<and> out = p\<lparr>inst_code := ''RIVM_PEAK''\<rparr>)
           (day_keys (parsed_lines lines)) (reduce_year lines)
       \<and> distinct (day_keys (parsed_lines lines))
       \<and> set (day_keys (parsed_lines lines)) = date_str ` set (parsed_lines lines)"
proof -
  let ?recs = "parsed_lines lines"
  have m: "reduce_year lines =
           map (\<lambda>k. peak_entry (the (first_max (day_group k ?recs)))) (day_keys ?recs)"
    and s: "\<forall>k\<in>set (day_keys ?recs). first_max (day_group k ?recs) \<noteq> None"
    using reduce_year_map [OF assms] by simp_all
  have "list_all2
           (\<lambda>k out. \<exists>p. first_max (day_group k ?recs) = Some p
                        \<and> out = p\<lparr>inst_code := ''RIVM_PEAK''\<rparr>)
           (day_keys ?recs)
           (map (\<lambda>k. peak_entry (the (first_max (day_group k ?recs)))) (day_keys ?recs))"
    using s by (auto simp: list_all2_map2 list_all2_same peak_entry_update)
  then show ?thesis
    using m by (simp add: distinct_day_keys set_day_keys)
qed

theorem reduce_year_peaks_witness:
  "list_all (\<lambda>r. py_float (uvi_str r) \<noteq> Some NaN)
     (parsed_lines [''20230101 1100 0.0 2.1'', ''20230101 1200 0.0 5.8'', ''20230101 1300 0.0 3.0''])
   \<and> list_all2
       (\<lambda>k out. \<exists>p. first_max (day_group k (parsed_lines
            [''20230101 1100 0.0 2.1'', ''20230101 1200 0.0 5.8'', ''20230101 1300 0.0 3.0'']))
                      = Some p
                    \<and> out = p\<lparr>inst_code := ''RIVM_PEAK''\<rparr>)
       (day_keys (parsed_lines
            [''20230101 1100 0.0 2.1'', ''20230101 1200 0.0 5.8'', ''20230101 1300 0.0 3.0'']))
       (reduce_year
            [''20230101 1100 0.0 2.1'', ''20230101 1200 0.0 5.8'', ''20230101 1300 0.0 3.0''])
   \<and> reduce_year
        [''20230101 1100 0.0 2.1'', ''20230101 1200 0.0 5.8'', ''20230101 1300 0.0 3.0'']
     = [\<lparr>date_obj = (2023, 1, 1, 12, 0), date_str = ''20230101'', time_str = ''1200'',
         t_dec = ''0.0'', uvi_str = ''5.8'', inst_code = ''RIVM_PEAK''\<rparr>]"
proof -
  let ?L = "[''20230101 1100 0.0 2.1'', ''20230101 1200 0.0 5.8'', ''20230101 1300 0.0 3.0'']"
  have h: "list_all (\<lambda>r. py_float (uvi_str r) \<noteq> Some NaN) (parsed_lines ?L)"
    by code_simp
  have e: "reduce_year ?L
     = [\<lparr>date_obj = (2023, 1, 1, 12, 0), date_str = ''20230101'', time_str = ''1200'',
         t_dec = ''0.0'', uvi_str = ''5.8'', inst_code = ''RIVM_PEAK''\<rparr>]"
    by code_simp
  have "\<forall>r\<in>set (parsed_lines ?L). py_float (uvi_str r) \<noteq> Some NaN"
    using h by (simp only: list_all_iff)
  from reduce_year_peaks [OF this] show ?thesis using h e by blast
qed

text \<open>
  Claim C3 as stated fails. A group whose first line has the UV text \<^verbatim>\<open>nan\<close> yields that
  line's record, although the group holds a record with UV value 5.0, which is not at most
  not-a-number. And two lines of one calendar day whose date texts differ yield two
  records for that day.
\<close>

theorem reduce_year_not_peak:
  "reduce_year [''20230101 1100 0.0 nan'', ''20230101 1200 0.0 5.0'']
     = [\<lparr>date_obj = (2023, 1, 1, 11, 0), date_str = ''20230101'', time_str = ''1100'',
         t_dec = ''0.0'', uvi_str = ''nan'', inst_code = ''RIVM_PEAK''\<rparr>]
   \<and> parsed_lines [''20230101 1100 0.0 nan'', ''20230101 1200 0.0 5.0'']
     = [\<lparr>date_obj = (2023, 1, 1, 11, 0), date_str = ''20230101'', time_str = ''1100'',
         t_dec = ''0.0'', uvi_str = ''nan'', inst_code = ''RIVM_HIST''\<rparr>,
        \<lparr>date_obj = (2023, 1, 1, 12, 0), date_str = ''20230101'', time_str = ''1200'',
         t_dec = ''0.0'', uvi_str = ''5.0'', inst_code = ''RIVM_HIST''\<rparr>]
   \<and> py_float ''nan'' = Some NaN \<and> py_float ''5.0'' = Some (Finite 5)
   \<and> \<not> pf_le (Finite 5) NaN
   \<and> reduce_year [''20230101 1200 0.0 1.0'', ''20230101x 1300 0.0 2.0'']
     = [\<lparr>date_obj = (2023, 1, 1, 12, 0), date_str = ''20230101'', time_str = ''1200'',
         t_dec = ''0.0'', uvi_str = ''1.0'', inst_code = ''RIVM_PEAK''\<rparr>,
        \<lparr>date_obj = (2023, 1, 1, 13, 0), date_str = ''20230101x'', time_str = ''1300'',
         t_dec = ''0.0'', uvi_str = ''2.0'', inst_code = ''RIVM_PEAK''\<rparr>]"
  by code_simp

subsection \<open>The nearest grid cell\<close>




subsection \<open>Extraction from the grid\<close>

text \<open>
  Claim C6, as the code has it. Given a dataset, extraction returns an error only for a
  structural problem (no \<^verbatim>\<open>PRODUCT\<close> group, a required variable missing, latitude and
  longitude not both 1-D or both 2-D, a UV field of another rank), or because the coordinate
  arrays form no grid (no cell, or 2-D arrays of different shapes), or because the UV field
  does not extend over the time steps and the cell found, or because a packed date does not
  decode to a date that can be constructed. The samples never matter: changing the samples
  of the UV field in any way changes neither whether an error is returned nor which.
\<close>

theorem extraction_error_causes:
  "(process_netcdf_data (Dataset g) tlat tlon = Inl e \<longrightarrow>
      structural_problem g
      \<or> (\<exists>p lats lons uv dates.
            g = Some p \<and> latitude p = Some lats \<and> longitude p = Some lons
          \<and> uvi_clear p = Some uv \<and> date p = Some dates
          \<and> (\<not> is_grid lats lons \<or> (\<exists>d\<in>set dates. \<not> date_ok d)
             \<or> (\<exists>la lo. find_nearest_grid_point lats lons tlat tlon = Inr (la, lo)
                        \<and> \<not> uv_covers uv (length dates) la lo))))
   \<and> (\<forall>f. process_netcdf_data (Dataset (map_option (map_samples f) g)) tlat tlon = Inl e
          \<longleftrightarrow> process_netcdf_data (Dataset g) tlat tlon = Inl e)"
proof -
  have a: "process_netcdf_data (Dataset g) tlat tlon = Inl e \<longrightarrow>
      structural_problem g
      \<or> (\<exists>p lats lons uv dates.
            g = Some p \<and> latitude p = Some lats \<and> longitude p = Some lons
          \<and> uvi_clear p = Some uv \<and> date p = Some dates
          \<and> (\<not> is_grid lats lons \<or> (\<exists>d\<in>set dates. \<not> date_ok d)
             \<or> (\<exists>la lo. find_nearest_grid_point lats lons tlat tlon = Inr (la, lo)
                        \<and> \<not> uv_covers uv (length dates) la lo)))"
    using process_failure_cause [of g tlat tlon e] by blast
  have b: "\<forall>f. process_netcdf_data (Dataset (map_option (map_samples f) g)) tlat tlon = Inl e
          \<longleftrightarrow> process_netcdf_data (Dataset g) tlat tlon = Inl e"
    by (simp add: process_map_samples)
  show ?thesis using a b by (rule conjI)
qed

theorem extraction_error_causes_witness:
  "process_netcdf_data (Dataset None) (521 / 10) (259 / 50) = Inl NoProductGroup
   \<and> structural_problem None
   \<and> (process_netcdf_data (Dataset (map_option (map_samples (\<lambda>v. Masked)) None))
         (521 / 10) (259 / 50) = Inl NoProductGroup)"
proof -
  have p: "process_netcdf_data (Dataset None) (521 / 10) (259 / 50) = Inl NoProductGroup"
    by (simp add: process_netcdf_data_def)
  have s: "structural_problem None"
    using p extraction_error_causes [of None "521 / 10" "259 / 50" NoProductGroup] by blast
  have m: "process_netcdf_data (Dataset (map_option (map_samples (\<lambda>v. Masked)) None))
         (521 / 10) (259 / 50) = Inl NoProductGroup"
    using p extraction_error_causes [of None "521 / 10" "259 / 50" NoProductGroup] by blast
  show ?thesis using p s m by blast
qed

text \<open>
  Claim C6 as stated fails: a dataset with every variable present, a one-cell grid and a
  UV field of rank three over it, whose single packed date is 0, makes extraction fail,
  and nothing about its structure is wrong.
\<close>

theorem extraction_fails_on_bad_date:
  "process_netcdf_data
     (Dataset (Some \<lparr>latitude = Some \<lparr>shape = [1], item = (\<lambda>idx. 52)\<rparr>,
                      longitude = Some \<lparr>shape = [1], item = (\<lambda>idx. 5)\<rparr>,
                      uvi_clear = Some \<lparr>shape = [1, 1, 1], item = (\<lambda>idx. Value (Finite 3))\<rparr>,
                      date = Some [0]\<rparr>)) (521 / 10) (259 / 50)
     = Inl (Caught ValueError)
   \<and> \<not> structural_problem
         (Some \<lparr>latitude = Some \<lparr>shape = [1], item = (\<lambda>idx. 52)\<rparr>,
                longitude = Some \<lparr>shape = [1], item = (\<lambda>idx. 5)\<rparr>,
                uvi_clear = Some \<lparr>shape = [1, 1, 1], item = (\<lambda>idx. Value (Finite 3))\<rparr>,
                date = Some [0]\<rparr>)
   \<and> find_nearest_grid_point \<lparr>shape = [1], item = (\<lambda>idx. 52 :: rat)\<rparr>
        \<lparr>shape = [1], item = (\<lambda>idx. 5)\<rparr> (521 / 10) (259 / 50) = Inr (0, 0)
   \<and> read_sample \<lparr>shape = [1, 1, 1], item = (\<lambda>idx. Value (Finite 3))\<rparr> 1 0 0 0
       = Inr (Value (Finite 3))
   \<and> \<not> date_ok 0"
  by code_simp

text \<open>
  Claim C7, as the code has it. For a dataset with all four variables, whose coordinate
  arrays yield a nearest cell, whose UV field extends over the time steps and that cell,
  and whose packed dates all decode to dates that can be constructed, extraction succeeds
  and its result is, time step by time step in order: nothing when the sample at the cell
  is masked, not-a-number or infinite, and otherwise exactly one record, dated
  (date div 10000, date mod 10000 div 100, date mod 100) at 12:00, with time text
  \<^verbatim>\<open>1200\<close>, \<^verbatim>\<open>t_dec\<close> \<^verbatim>\<open>0.0\<close>, source tag \<^verbatim>\<open>TEMIS_FCST\<close> and the sample formatted with two
  decimals, rounded to the nearest hundredth.
\<close>

theorem extraction_per_timestep:
  assumes "latitude p = Some lats" "longitude p = Some lons" "uvi_clear p = Some uv"
    "date p = Some dates"
    "find_nearest_grid_point lats lons tlat tlon = Inr (la, lo)"
    "uv_covers uv (length dates) la lo" "\<forall>d\<in>set dates. date_ok d"
  shows "process_netcdf_data (Dataset (Some p)) tlat tlon =
           Inr (concat (map (\<lambda>(i, d). timestep_records (sample_at uv la lo i) d)
                            (enumerate 0 dates)))
       \<and> (\<forall>v d. timestep_records v d =
             (if v = Masked \<or> v = Value NaN \<or> v = Value PosInf \<or> v = Value NegInf then []
              else [\<lparr>date_obj = (d div 10000, (d mod 10000) div 100, d mod 100, 12, 0),
                     date_str = strftime_Ymd (d div 10000, (d mod 10000) div 100, d mod 100, 12, 0),
                     time_str = ''1200'', t_dec = ''0.0'', uvi_str = fmt2 v,
                     inst_code = ''TEMIS_FCST''\<rparr>]))
       \<and> (\<forall>q. \<exists>w f. fmt2 (Value (Finite q)) = w @ ''.'' @ f \<and> length f = 2)
       \<and> (\<forall>q. \<bar>of_int (round_half_even (\<bar>q\<bar> * 100)) - \<bar>q\<bar> * 100\<bar> \<le> 1 / 2)"
proof -
  have a: "process_netcdf_data (Dataset (Some p)) tlat tlon =
           Inr (concat (map (\<lambda>(i, d). timestep_records (sample_at uv la lo i) d)
                            (enumerate 0 dates)))"
    using assms by (rule process_success)
  have b: "\<forall>v d. timestep_records v d =
             (if v = Masked \<or> v = Value NaN \<or> v = Value PosInf \<or> v = Value NegInf then []
              else [\<lparr>date_obj = (d div 10000, (d mod 10000) div 100, d mod 100, 12, 0),
                     date_str = strftime_Ymd (d div 10000, (d mod 10000) div 100, d mod 100, 12, 0),
                     time_str = ''1200'', t_dec = ''0.0'', uvi_str = fmt2 v,
                     inst_code = ''TEMIS_FCST''\<rparr>])"
    by (simp add: timestep_records_def)
  have c: "\<forall>q. \<exists>w f. fmt2 (Value (Finite q)) = w @ ''.'' @ f \<and> length f = 2"
    using fmt2_two_decimals by blast
  have d: "\<forall>q. \<bar>of_int (round_half_even (\<bar>q\<bar> * 100)) - \<bar>q\<bar> * 100\<bar> \<le> 1 / 2"
    using round_half_even_close by blast
  show ?thesis using a b c d by (intro conjI)
qed

theorem extraction_per_timestep_witness:
  "find_nearest_grid_point \<lparr>shape = [2], item = (\<lambda>idx. [50, 52 :: rat] ! (idx ! 0))\<rparr>
        \<lparr>shape = [2], item = (\<lambda>idx. [4, 5 :: rat] ! (idx ! 0))\<rparr> (521 / 10) (259 / 50)
     = Inr (1, 1)
   \<and> uv_covers \<lparr>shape = [3, 2, 2],
                 item = (\<lambda>idx. [Value (Finite (314159 / 100000)), Value NaN, Masked] ! (idx ! 0))\<rparr>
        3 1 1
   \<and> list_all date_ok [20230101, 20230102, 20230103]
   \<and> process_netcdf_data
       (Dataset (Some
          \<lparr>latitude = Some \<lparr>shape = [2], item = (\<lambda>idx. [50, 52 :: rat] ! (idx ! 0))\<rparr>,
           longitude = Some \<lparr>shape = [2], item = (\<lambda>idx. [4, 5 :: rat] ! (idx ! 0))\<rparr>,
           uvi_clear = Some \<lparr>shape = [3, 2, 2],
             item = (\<lambda>idx. [Value (Finite (314159 / 100000)), Value NaN, Masked] ! (idx ! 0))\<rparr>,
           date = Some [20230101, 20230102, 20230103]\<rparr>)) (521 / 10) (259 / 50)
     = Inr [\<lparr>date_obj = (2023, 1, 1, 12, 0), date_str = ''20230101'', time_str = ''1200'',
             t_dec = ''0.0'', uvi_str = ''3.14'', inst_code = ''TEMIS_FCST''\<rparr>]"
proof -
  let ?lats = "\<lparr>shape = [2], item = (\<lambda>idx. [50, 52 :: rat] ! (idx ! 0))\<rparr>"
  let ?lons = "\<lparr>shape = [2], item = (\<lambda>idx. [4, 5 :: rat] ! (idx ! 0))\<rparr>"
  let ?uv = "\<lparr>shape = [3, 2, 2],
             item = (\<lambda>idx. [Value (Finite (314159 / 100000)), Value NaN, Masked] ! (idx ! 0))\<rparr>"
  let ?dates = "[20230101, 20230102, 20230103 :: int]"
  let ?p = "\<lparr>latitude = Some ?lats, longitude = Some ?lons, uvi_clear = Some ?uv,
            date = Some ?dates\<rparr>"
  have fn: "find_nearest_grid_point ?lats ?lons (521 / 10) (259 / 50) = Inr (1, 1)"
    by code_simp
  have cov: "uv_covers ?uv (length ?dates) 1 1"
    by (simp add: uv_covers_def ndim_def)
  have dk: "list_all date_ok ?dates"
    by code_simp
  then have dk': "\<forall>d\<in>set ?dates. date_ok d" by (simp only: list_all_iff)
  have e: "concat (map (\<lambda>(i, d). timestep_records (sample_at ?uv 1 1 i) d) (enumerate 0 ?dates))
     = [\<lparr>date_obj = (2023, 1, 1, 12, 0), date_str = ''20230101'', time_str = ''1200'',
         t_dec = ''0.0'', uvi_str = ''3.14'', inst_code = ''TEMIS_FCST''\<rparr>]"
    by code_simp
  have v: "latitude ?p = Some ?lats" "longitude ?p = Some ?lons" "uvi_clear ?p = Some ?uv"
    "date ?p = Some ?dates"
    by simp_all
  from extraction_per_timestep [OF v fn cov dk'] have
    "process_netcdf_data (Dataset (Some ?p)) (521 / 10) (259 / 50) =
       Inr (concat (map (\<lambda>(i, d). timestep_records (sample_at ?uv 1 1 i) d) (enumerate 0 ?dates)))"
    by (rule conjunct1)
  then have r: "process_netcdf_data (Dataset (Some ?p)) (521 / 10) (259 / 50)
     = Inr [\<lparr>date_obj = (2023, 1, 1, 12, 0), date_str = ''20230101'', time_str = ''1200'',
             t_dec = ''0.0'', uvi_str = ''3.14'', inst_code = ''TEMIS_FCST''\<rparr>]"
    by (simp only: e)
  have cov': "uv_covers ?uv 3 1 1"
    by (simp add: uv_covers_def ndim_def)
  show ?thesis using fn cov' dk r by (intro conjI)
qed

text \<open>
  Claim C7 as stated fails: in a dataset whose structure is in order, a time step whose
  packed date is 20231301 has a finite sample at the cell, yet no record is emitted for
  it: extraction as a whole fails.
\<close>

theorem extraction_step_lost_on_bad_date:
  "process_netcdf_data
     (Dataset (Some \<lparr>latitude = Some \<lparr>shape = [1], item = (\<lambda>idx. 52)\<rparr>,
                      longitude = Some \<lparr>shape = [1], item = (\<lambda>idx. 5)\<rparr>,
                      uvi_clear = Some \<lparr>shape = [1, 1, 1], item = (\<lambda>idx. Value (Finite 3))\<rparr>,
                      date = Some [20231301]\<rparr>)) (521 / 10) (259 / 50)
     = Inl (Caught ValueError)
   \<and> \<not> structural_problem
         (Some \<lparr>latitude = Some \<lparr>shape = [1], item = (\<lambda>idx. 52)\<rparr>,
                longitude = Some \<lparr>shape = [1], item = (\<lambda>idx. 5)\<rparr>,
                uvi_clear = Some \<lparr>shape = [1, 1, 1], item = (\<lambda>idx. Value (Finite 3))\<rparr>,
                date = Some [20231301]\<rparr>)
   \<and> find_nearest_grid_point \<lparr>shape = [1], item = (\<lambda>idx. 52 :: rat)\<rparr>
        \<lparr>shape = [1], item = (\<lambda>idx. 5)\<rparr> (521 / 10) (259 / 50) = Inr (0, 0)
   \<and> uv_covers \<lparr>shape = [1, 1, 1], item = (\<lambda>idx. Value (Finite 3))\<rparr> 1 0 0
   \<and> sample_at \<lparr>shape = [1, 1, 1], item = (\<lambda>idx. Value (Finite 3))\<rparr> 0 0 0 = Value (Finite 3)
   \<and> \<not> skip_sample (Value (Finite 3))
   \<and> (20231301 :: int) div 10000 = 2023 \<and> ((20231301 :: int) mod 10000) div 100 = 13
   \<and> py_datetime 2023 13 1 12 0 = None"
  by code_simp

end
